theory Spec2Isabelle
  imports Main "HOL-Library.Word"
begin

unbundle bit_operations_syntax

section \<open>Machine integers and wire data\<close>

type_synonym u8 = "8 word"
type_synonym u16 = "16 word"
type_synonym u32 = "32 word"
type_synonym u64 = "64 word"

text \<open>\<^verbatim>\<open>ip_address_type\<close>: the sixteen bytes of an IPv6 address, most significant first.\<close>

type_synonym ip_address_type = "u8 list"

text \<open>
  \<^verbatim>\<open>network_address_type\<close>, the wire form of an endpoint. The initialiser in
  \<^verbatim>\<open>authority::to_network_address\<close> fixes the field order: timestamp, services, ip, port.
  The field names carry the prefix \<open>addr_\<close> because \<^verbatim>\<open>message::version\<close> has fields
  \<^verbatim>\<open>timestamp\<close> and \<^verbatim>\<open>services\<close> of its own.
\<close>

record network_address_type =
  addr_timestamp :: u32
  addr_services :: u64
  addr_ip :: ip_address_type
  addr_port :: u16

text \<open>
  \<^verbatim>\<open>config::authority\<close>. A name cannot end in an underscore here, so the members
  \<^verbatim>\<open>ip_\<close> and \<^verbatim>\<open>port_\<close> are the fields \<open>ip_field\<close> and \<open>port_field\<close>.
\<close>

record authority =
  ip_field :: ip_address_type
  port_field :: u16

definition ip :: "authority \<Rightarrow> ip_address_type" where
  "ip a = ip_field a"

definition port :: "authority \<Rightarrow> u16" where
  "port a = port_field a"

text \<open>
  \<^verbatim>\<open>authority::to_network_address\<close>: both local constants are zero, the address and the
  port are read through the accessors.
\<close>

definition to_network_address :: "authority \<Rightarrow> network_address_type" where
  "to_network_address a =
     (let services = 0; timestamp = 0
      in \<lparr>addr_timestamp = timestamp, addr_services = services,
          addr_ip = ip a, addr_port = port a\<rparr>)"

section \<open>Characters, numbers and the library calls of \<^verbatim>\<open>authority.cpp\<close>\<close>

text \<open>The character classes of the two patterns, and the white space of a stream.\<close>

definition is_digit :: "char \<Rightarrow> bool" where
  "is_digit c \<longleftrightarrow> c \<in> set ''0123456789''"

definition host4_char :: "char \<Rightarrow> bool" where
  "host4_char c \<longleftrightarrow> c \<in> set ''0123456789.''"

definition host6_char :: "char \<Rightarrow> bool" where
  "host6_char c \<longleftrightarrow> c \<in> set ''0123456789abcdef:.''"

definition is_space :: "char \<Rightarrow> bool" where
  "is_space c \<longleftrightarrow> c \<in> set [CHR '' '', CHR 0x09, CHR 0x0A, CHR 0x0B, CHR 0x0C, CHR 0x0D]"

definition digit_value :: "char \<Rightarrow> nat" where
  "digit_value c = of_char c - 48"

text \<open>The number written by a string of decimal digits.\<close>

definition decimal :: "string \<Rightarrow> nat" where
  "decimal s = foldl (\<lambda>n c. 10 * n + digit_value c) 0 s"

text \<open>
  A number as a stream writes it: in decimal (\<^verbatim>\<open><<\<close> on a \<^verbatim>\<open>uint16_t\<close>, \<^verbatim>\<open>%u\<close>) and in
  lower-case hexadecimal (\<^verbatim>\<open>%x\<close>), without leading zeros.
\<close>

definition digit_char :: "nat \<Rightarrow> char" where
  "digit_char k = ''0123456789abcdef'' ! k"

function show_decimal :: "nat \<Rightarrow> string" where
  "show_decimal n =
     (if n < 10 then [digit_char n] else show_decimal (n div 10) @ [digit_char (n mod 10)])"
  by pat_completeness auto
termination
  by (relation "measure id") auto

function show_hex :: "nat \<Rightarrow> string" where
  "show_hex n =
     (if n < 16 then [digit_char n] else show_hex (n div 16) @ [digit_char (n mod 16)])"
  by pat_completeness auto
termination
  by (relation "measure id") auto

declare show_decimal.simps [simp del]

declare show_hex.simps [simp del]

text \<open>
  \<^verbatim>\<open>input >> value\<close> on a stream over the string: leading white space is skipped and the
  characters up to the next white space are read. Nothing is read from an empty or
  blank string, and \<^verbatim>\<open>value\<close> stays empty.
\<close>

definition extract_token :: "string \<Rightarrow> string" where
  "extract_token s = takeWhile (\<lambda>c. \<not> is_space c) (dropWhile is_space s)"

text \<open>
  \<^verbatim>\<open>lexical_cast<uint16_t>\<close> on the text of the port group, which holds decimal digits
  or nothing: the cast fails on the empty text and on a number above 65535.
\<close>

definition lexical_cast_uint16 :: "string \<Rightarrow> u16 option" where
  "lexical_cast_uint16 s =
     (if s = [] \<or> \<not> list_all is_digit s then None
      else if decimal s \<le> 65535 then Some (of_nat (decimal s))
      else None)"

subsection \<open>The address as text: \<^verbatim>\<open>address_v6::to_string\<close>\<close>

text \<open>
  \<^verbatim>\<open>ip::address_v6::to_string\<close> is the C library's \<^verbatim>\<open>inet_ntop\<close> for an address
  without scope. The sixteen bytes are read as eight words; the longest run of two or
  more zero words (the first one among equals) is written as \<^verbatim>\<open>::\<close>; an address whose
  first five words are zero and whose sixth is \<^verbatim>\<open>ffff\<close>, or whose first six words are
  zero, ends in dotted decimal.
\<close>

fun words :: "u8 list \<Rightarrow> nat list" where
  "words (hi # lo # bs) = (unat hi * 256 + unat lo) # words bs"
| "words bs = []"

definition inet_ntop4 :: "u8 list \<Rightarrow> string" where
  "inet_ntop4 bs =
     (case bs of
        [a, b, c, d] \<Rightarrow>
          show_decimal (unat a) @ ''.'' @ show_decimal (unat b) @ ''.'' @
          show_decimal (unat c) @ ''.'' @ show_decimal (unat d)
      | _ \<Rightarrow> [])"

text \<open>The run that is kept when the current run ends: the longer one, the older at a tie.\<close>

definition longer_run :: "(nat \<times> nat) option \<Rightarrow> (nat \<times> nat) option \<Rightarrow> (nat \<times> nat) option" where
  "longer_run cur best =
     (case cur of
        None \<Rightarrow> best
      | Some (cur_base, cur_len) \<Rightarrow>
          (case best of
             None \<Rightarrow> cur
           | Some (best_base, best_len) \<Rightarrow> if cur_len > best_len then cur else best))"

fun best_run ::
  "nat list \<Rightarrow> nat \<Rightarrow> (nat \<times> nat) option \<Rightarrow> (nat \<times> nat) option \<Rightarrow> (nat \<times> nat) option" where
  "best_run [] i cur best = longer_run cur best"
| "best_run (w # ws) i cur best =
     (if w = 0
      then (case cur of
              None \<Rightarrow> best_run ws (Suc i) (Some (i, 1)) best
            | Some (cur_base, cur_len) \<Rightarrow> best_run ws (Suc i) (Some (cur_base, Suc cur_len)) best)
      else best_run ws (Suc i) None (longer_run cur best))"

definition zero_run :: "nat list \<Rightarrow> (nat \<times> nat) option" where
  "zero_run ws =
     (case best_run ws 0 None None of
        None \<Rightarrow> None
      | Some (base, len) \<Rightarrow> if len < 2 then None else Some (base, len))"

definition encapsulated :: "(nat \<times> nat) option \<Rightarrow> nat list \<Rightarrow> bool" where
  "encapsulated best ws \<longleftrightarrow>
     (case best of
        None \<Rightarrow> False
      | Some (base, len) \<Rightarrow>
          base = 0 \<and> (len = 6 \<or> (len = 5 \<and> take 1 (drop 5 ws) = [0xffff])))"

fun format_words ::
  "(nat \<times> nat) option \<Rightarrow> bool \<Rightarrow> u8 list \<Rightarrow> nat \<Rightarrow> nat list \<Rightarrow> string" where
  "format_words best v4 src i [] = []"
| "format_words best v4 src i (w # ws) =
     (case best of
        Some (base, len) \<Rightarrow>
          if base \<le> i \<and> i < base + len
          then (if i = base then '':'' else []) @ format_words best v4 src (Suc i) ws
          else (if i \<noteq> 0 then '':'' else []) @
               (if i = 6 \<and> v4 then inet_ntop4 (drop 12 src)
                else show_hex w @ format_words best v4 src (Suc i) ws)
      | None \<Rightarrow>
          (if i \<noteq> 0 then '':'' else []) @ show_hex w @ format_words best v4 src (Suc i) ws)"

definition address_to_string :: "ip_address_type \<Rightarrow> string" where
  "address_to_string src =
     (let ws = words src; best = zero_run ws
      in format_words best (encapsulated best ws) src 0 ws @
         (case best of
            None \<Rightarrow> []
          | Some (base, len) \<Rightarrow> if base + len = 8 then '':'' else []))"

subsection \<open>The text as address: \<^verbatim>\<open>address_v6::from_string\<close>\<close>

text \<open>
  \<^verbatim>\<open>ip::address_v6::from_string\<close> is the C library's \<^verbatim>\<open>inet_pton\<close>; it throws where
  \<^verbatim>\<open>inet_pton\<close> rejects the text, which is the result \<open>None\<close> here. The texts that reach
  it from the parser hold no scope suffix. The loops follow the library's: a dotted
  quad has four decimal octets up to 255 without leading zeros; an IPv6 text has groups
  of up to four hexadecimal digits, at most one \<^verbatim>\<open>::\<close>, and may end in a dotted quad.
\<close>

fun pton4_loop :: "string \<Rightarrow> nat list \<Rightarrow> nat \<Rightarrow> bool \<Rightarrow> nat \<Rightarrow> nat list option" where
  "pton4_loop [] done cur saw_digit octets =
     (if octets < 4 then None else Some (done @ [cur]))"
| "pton4_loop (ch # src) done cur saw_digit octets =
     (if is_digit ch
      then (let new = cur * 10 + digit_value ch
            in if saw_digit \<and> cur = 0 then None
               else if new > 255 then None
               else if \<not> saw_digit
                 then (if Suc octets > 4 then None
                       else pton4_loop src done new True (Suc octets))
               else pton4_loop src done new True octets)
      else if ch = CHR ''.'' \<and> saw_digit
        then (if octets = 4 then None else pton4_loop src (done @ [cur]) 0 False octets)
      else None)"

definition inet_pton4 :: "string \<Rightarrow> u8 list option" where
  "inet_pton4 src = map_option (map of_nat) (pton4_loop src [] 0 False 0)"

definition is_xdigit :: "char \<Rightarrow> bool" where
  "is_xdigit c \<longleftrightarrow> c \<in> set ''0123456789abcdefABCDEF''"

definition xdigit_value :: "char \<Rightarrow> nat" where
  "xdigit_value c =
     (if is_digit c then of_char c - 48
      else if c \<in> set ''abcdef'' then of_char c - 87
      else of_char c - 55)"

definition word_bytes :: "nat \<Rightarrow> u8 list" where
  "word_bytes val = [of_nat (val div 256), of_nat (val mod 256)]"

fun pton6_loop ::
  "string \<Rightarrow> u8 list \<Rightarrow> nat option \<Rightarrow> nat \<Rightarrow> nat \<Rightarrow> string \<Rightarrow> (u8 list \<times> nat option) option" where
  "pton6_loop [] tp colonp seen_xdigits val curtok =
     (if seen_xdigits > 0
      then (if length tp + 2 > 16 then None else Some (tp @ word_bytes val, colonp))
      else Some (tp, colonp))"
| "pton6_loop (ch # src) tp colonp seen_xdigits val curtok =
     (if is_xdigit ch
      then (if Suc seen_xdigits > 4 then None
            else pton6_loop src tp colonp (Suc seen_xdigits) (val * 16 + xdigit_value ch) curtok)
      else if ch = CHR '':''
        then (if seen_xdigits = 0
              then (if colonp \<noteq> None then None
                    else pton6_loop src tp (Some (length tp)) seen_xdigits val src)
              else if src = [] then None
              else if length tp + 2 > 16 then None
              else pton6_loop src (tp @ word_bytes val) colonp 0 0 src)
      else if ch = CHR ''.'' \<and> length tp + 4 \<le> 16
        then (case inet_pton4 curtok of
                Some quad \<Rightarrow> Some (tp @ quad, colonp)
              | None \<Rightarrow> None)
      else None)"

definition inet_pton6 :: "string \<Rightarrow> ip_address_type option" where
  "inet_pton6 src =
     (case (case src of
              ch # rest \<Rightarrow>
                if ch = CHR '':''
                then (if take 1 rest = '':'' then pton6_loop rest [] None 0 0 rest else None)
                else pton6_loop src [] None 0 0 src
            | [] \<Rightarrow> pton6_loop src [] None 0 0 src) of
        None \<Rightarrow> None
      | Some (tp, colonp) \<Rightarrow>
          (case colonp of
             Some k \<Rightarrow>
               if length tp = 16 then None
               else Some (take k tp @ replicate (16 - length tp) 0 @ drop k tp)
           | None \<Rightarrow> if length tp = 16 then Some tp else None))"

definition address_from_string :: "string \<Rightarrow> ip_address_type option" where
  "address_from_string s = inet_pton6 s"

section \<open>\<^verbatim>\<open>config::authority\<close> as text\<close>

text \<open>
  The static \<^verbatim>\<open>to_hostname\<close>: a host with a colon and no bracket is put in brackets
  (\<^verbatim>\<open>format("[%1%]")\<close>).
\<close>

definition to_hostname :: "string \<Rightarrow> string" where
  "to_hostname host =
     (if CHR '':'' \<notin> set host \<or> CHR ''['' \<in> set host then host
      else ''['' @ host @ '']'')"

text \<open>The static \<^verbatim>\<open>to_authority\<close>: the port is written only when it is above zero.\<close>

definition to_authority :: "string \<Rightarrow> u16 \<Rightarrow> string" where
  "to_authority host port' =
     to_hostname host @ (if port' > 0 then '':'' @ show_decimal (unat port') else [])"

text \<open>\<^verbatim>\<open>to_ipv6\<close> on the text of an IPv4 address.\<close>

definition to_ipv6 :: "string \<Rightarrow> string" where
  "to_ipv6 ipv4_address = ''::ffff:'' @ ipv4_address"

text \<open>
  \<^verbatim>\<open>to_ipv4_hostname\<close>: the pattern \<^verbatim>\<open>::ffff:([0-9\.]+)\<close> is searched in the text of
  the address, and the first group of the first match is returned, the empty string
  when there is none. The first match starts at the leftmost \<^verbatim>\<open>::ffff:\<close> that a digit
  or a dot follows, and its group is the longest run of digits and dots there.
\<close>

fun strip_prefix :: "string \<Rightarrow> string \<Rightarrow> string option" where
  "strip_prefix [] s = Some s"
| "strip_prefix (p # ps) [] = None"
| "strip_prefix (p # ps) (c # cs) = (if p = c then strip_prefix ps cs else None)"

fun search_mapped :: "string \<Rightarrow> string" where
  "search_mapped [] = []"
| "search_mapped (c # cs) =
     (case strip_prefix ''::ffff:'' (c # cs) of
        Some rest \<Rightarrow>
          if takeWhile host4_char rest \<noteq> [] then takeWhile host4_char rest
          else search_mapped cs
      | None \<Rightarrow> search_mapped cs)"

definition to_ipv4_hostname :: "ip_address_type \<Rightarrow> string" where
  "to_ipv4_hostname ip_address = search_mapped (address_to_string ip_address)"

definition to_ipv6_hostname :: "ip_address_type \<Rightarrow> string" where
  "to_ipv6_hostname ip_address = ''['' @ address_to_string ip_address @ '']''"

text \<open>The member \<^verbatim>\<open>authority::to_hostname\<close>.\<close>

definition authority_to_hostname :: "authority \<Rightarrow> string" where
  "authority_to_hostname a =
     (let ipv4_hostname = to_ipv4_hostname (ip_field a)
      in if ipv4_hostname = [] then to_ipv6_hostname (ip_field a) else ipv4_hostname)"

text \<open>\<^verbatim>\<open>operator<<\<close> and \<^verbatim>\<open>authority::to_string\<close>.\<close>

definition to_string :: "authority \<Rightarrow> string" where
  "to_string a = to_authority (authority_to_hostname a) (port a)"

text \<open>\<^verbatim>\<open>authority::operator==\<close>.\<close>

definition authority_eq :: "authority \<Rightarrow> authority \<Rightarrow> bool" where
  "authority_eq a other \<longleftrightarrow> ip a = ip other \<and> port a = port other"

text \<open>
  The pattern of \<^verbatim>\<open>operator>>\<close>,
  \<^verbatim>\<open>(([0-9\.]+)|\[([0-9a-f:\.]+)])(:([0-9]{1,10}))?\<close>, tried at the start of a text.
  The result holds the groups 2, 3 and 5, a group that took no part being empty. The
  first alternative takes the longest run of digits and dots; the second one needs a
  bracket, a run of address characters and the closing bracket. The port group is
  optional: it takes a colon and up to ten digits when a digit follows the colon, and
  nothing otherwise, so the pattern matches whenever the host does.
\<close>

definition match_port :: "string \<Rightarrow> string" where
  "match_port rest =
     (case rest of
        c # r \<Rightarrow> if c = CHR '':'' then take 10 (takeWhile is_digit r) else []
      | [] \<Rightarrow> [])"

definition match_here :: "string \<Rightarrow> (string \<times> string \<times> string) option" where
  "match_here s =
     (if takeWhile host4_char s \<noteq> []
      then Some (takeWhile host4_char s, [], match_port (dropWhile host4_char s))
      else (case s of
              c # r \<Rightarrow>
                if c = CHR ''['' \<and> takeWhile host6_char r \<noteq> [] \<and>
                   take 1 (dropWhile host6_char r) = '']''
                then Some ([], takeWhile host6_char r,
                           match_port (drop 1 (dropWhile host6_char r)))
                else None
            | [] \<Rightarrow> None))"

text \<open>The search of \<^verbatim>\<open>sregex_iterator\<close>: the match at the leftmost position that has one.\<close>

fun regex_search :: "string \<Rightarrow> (string \<times> string \<times> string) option" where
  "regex_search [] = None"
| "regex_search (c # cs) =
     (case match_here (c # cs) of
        Some m \<Rightarrow> Some m
      | None \<Rightarrow> regex_search cs)"

text \<open>
  \<^verbatim>\<open>operator>>\<close> as used by the constructor \<^verbatim>\<open>authority(const std::string&)\<close>: the
  exception \<^verbatim>\<open>invalid_option_value\<close> carries the token that was read. It is thrown when
  the pattern is not found and when the address or the port cannot be converted; an
  exception leaves the constructor without an authority.
\<close>

datatype exception = invalid_option_value string

definition authority_from_string :: "string \<Rightarrow> exception + authority" where
  "authority_from_string s =
     (let value' = extract_token s
      in case regex_search value' of
           None \<Rightarrow> Inl (invalid_option_value value')
         | Some (match2, match3, match5) \<Rightarrow>
             (let ip_address = (if match3 = [] then to_ipv6 match2 else match3)
              in case address_from_string ip_address of
                   None \<Rightarrow> Inl (invalid_option_value value')
                 | Some address \<Rightarrow>
                     (case lexical_cast_uint16 match5 of
                        None \<Rightarrow> Inl (invalid_option_value value')
                      | Some port' \<Rightarrow> Inr \<lparr>ip_field = address, port_field = port'\<rparr>)))"

subsection \<open>The textual forms\<close>

text \<open>
  The forms \<^verbatim>\<open>host\<close>, \<^verbatim>\<open>host:port\<close> and \<^verbatim>\<open>[v6]:port\<close> in the words of the
  specification, ``\<^verbatim>\<open>(ipv4|[ipv6])(:port)?\<close>'': a host is a run of digits and dots, or
  a run of address characters in brackets; a port is one to ten digits; a text has the
  form of an authority when it is a host, or a host, a colon and a port.
\<close>

definition is_port :: "string \<Rightarrow> bool" where
  "is_port p \<longleftrightarrow> p \<noteq> [] \<and> length p \<le> 10 \<and> list_all is_digit p"

definition ipv4_text :: "string \<Rightarrow> bool" where
  "ipv4_text h \<longleftrightarrow> h \<noteq> [] \<and> list_all host4_char h"

definition ipv6_text :: "string \<Rightarrow> bool" where
  "ipv6_text h \<longleftrightarrow> h \<noteq> [] \<and> list_all host6_char h"

definition bracketed :: "string \<Rightarrow> bool" where
  "bracketed h \<longleftrightarrow>
     (case h of
        c # r \<Rightarrow> c = CHR ''['' \<and> r \<noteq> [] \<and> last r = CHR '']'' \<and> ipv6_text (butlast r)
      | [] \<Rightarrow> False)"

definition host_form :: "string \<Rightarrow> bool" where
  "host_form h \<longleftrightarrow> ipv4_text h \<or> bracketed h"

definition authority_form :: "string \<Rightarrow> bool" where
  "authority_form s \<longleftrightarrow>
     host_form s \<or>
     list_ex (\<lambda>i. s ! i = CHR '':'' \<and> host_form (take i s) \<and> is_port (drop (Suc i) s))
       [0..<length s]"

text \<open>The text of the address that a host stands for: the parser maps an IPv4 host.\<close>

definition host_address :: "string \<Rightarrow> string" where
  "host_address h = (if ipv4_text h then to_ipv6 h else butlast (tl h))"

section \<open>Settings, messages and error codes\<close>

text \<open>
  The error codes of the library that the handshake and the sessions use; \<^verbatim>\<open>if (ec)\<close>
  in the source tests \<open>ec \<noteq> success\<close>.
\<close>

datatype code =
    success
  | service_stopped
  | operation_failed
  | resolve_failed
  | network_unreachable
  | address_in_use
  | accept_failed
  | bad_stream
  | channel_timeout
  | channel_stopped
  | not_found
  | file_system

text \<open>
  The fields of \<^verbatim>\<open>network::settings\<close> that \<^verbatim>\<open>protocol_version_31402\<close> reads.
  \<^verbatim>\<open>channel_handshake\<close> is the handshake timeout in seconds.
\<close>

record settings =
  protocol_minimum :: u32
  protocol_maximum :: u32
  services :: u64
  self :: authority
  channel_handshake :: nat

text \<open>
  \<^verbatim>\<open>message::version\<close>. The source spells the receiver field \<^verbatim>\<open>address_recevier\<close>.
  The fields \<^verbatim>\<open>value\<close>, \<^verbatim>\<open>services\<close> and \<^verbatim>\<open>timestamp\<close> are \<open>version_value\<close>,
  \<open>version_services\<close> and \<open>version_timestamp\<close> here: \<open>value\<close> is a keyword and the other
  two names belong to \<open>settings\<close> and to the network address.
\<close>

record version =
  version_value :: u32
  version_services :: u64
  version_timestamp :: u64
  address_recevier :: network_address_type
  address_sender :: network_address_type
  nonce :: u64
  user_agent :: string
  start_height :: u32

text \<open>
  \<^verbatim>\<open>version::level::minimum\<close> and \<^verbatim>\<open>version::level::maximum\<close> are constants of the
  message library; the protocol is modelled for any pair of them.
\<close>

record level =
  level_minimum :: u32
  level_maximum :: u32

text \<open>\<^verbatim>\<open>version::service::none\<close>.\<close>

definition service_none :: u64 where
  "service_none = 0"

text \<open>\<^verbatim>\<open>version::command\<close>, the wire name of the version message.\<close>

definition version_command :: string where
  "version_command = ''version''"

text \<open>
  \<^verbatim>\<open>reject::command\<close>, the static wire name of the reject message; it is what
  \<^verbatim>\<open>rejection.command\<close> reads in \<^verbatim>\<open>handle_receive_version\<close>.
\<close>

definition reject_command :: string where
  "reject_command = ''reject''"

text \<open>\<^verbatim>\<open>max_uint32\<close>.\<close>

definition max_uint32 :: u64 where
  "max_uint32 = 0xFFFFFFFF"

text \<open>\<^verbatim>\<open>reject::reason_code\<close> and \<^verbatim>\<open>message::reject\<close>, built in the source as
  \<^verbatim>\<open>{ message, code, reason }\<close>.\<close>

datatype reason_code =
    malformed
  | invalid
  | obsolete
  | duplicate
  | nonstandard
  | dust
  | insufficient_fee
  | checkpoint

record reject =
  reject_message :: string
  reject_code :: reason_code
  reject_reason :: string

datatype message =
    Version_message version
  | Verack_message
  | Reject_message reject

section \<open>The calls a protocol makes on its channel\<close>

text \<open>
  A handler of the protocol does nothing but call its base classes and its channel:
  \<^verbatim>\<open>SEND1\<close>/\<^verbatim>\<open>SEND2\<close>, \<^verbatim>\<open>set_event\<close>, \<^verbatim>\<open>set_negotiated_version\<close>,
  \<^verbatim>\<open>SUBSCRIBE2\<close> and \<^verbatim>\<open>protocol_timer::start\<close>. A handler is modelled as the list of
  these calls in the order the source makes them, with the value it returns. Log lines
  are left out.
\<close>

text \<open>
  The handler bound to a send: \<^verbatim>\<open>handle_send\<close> is bound with the command of the
  message as its second argument.
\<close>

datatype completion =
    handle_version_sent_cb
  | handle_verack_sent_cb
  | handle_send_cb string

datatype subscription = version_sub | verack_sub

datatype action =
    Send message completion
  | Set_event code
  | Set_negotiated_version u32
  | Subscribe subscription
  | Timer_start nat nat

section \<open>\<^verbatim>\<open>protocol_version_31402\<close>\<close>

text \<open>
  \<^verbatim>\<open>version_factory\<close>. The wall clock (\<^verbatim>\<open>time_stamp()\<close>) and the build constant
  \<^verbatim>\<open>BC_USER_AGENT\<close> are parameters. \<^verbatim>\<open>height\<close> is a \<^verbatim>\<open>size_t\<close>; the cast to
  \<^verbatim>\<open>uint32_t\<close> keeps the low 32 bits. The assertion of the source
  (\<^verbatim>\<open>height <= max_uint32\<close>) is \<open>height_asserted\<close>.
\<close>

definition height_asserted :: "u64 \<Rightarrow> bool" where
  "height_asserted height \<longleftrightarrow> height \<le> max_uint32"

definition version_factory ::
  "string \<Rightarrow> u64 \<Rightarrow> authority \<Rightarrow> settings \<Rightarrow> u64 \<Rightarrow> u64 \<Rightarrow> version" where
  "version_factory BC_USER_AGENT time_stamp authority settings nonce' height =
     (let version =
        \<lparr>version_value = protocol_maximum settings,
         version_services = services settings,
         version_timestamp = time_stamp,
         address_recevier = to_network_address authority,
         address_sender = to_network_address (self settings),
         nonce = nonce',
         user_agent = BC_USER_AGENT,
         start_height = ucast height\<rparr>;
        version = version\<lparr>address_recevier :=
          (address_recevier version)\<lparr>addr_services := service_none\<rparr>\<rparr>;
        version = version\<lparr>address_sender :=
          (address_sender version)\<lparr>addr_services := services settings\<rparr>\<rparr>
      in version)"

text \<open>
  The protocol object: the members \<^verbatim>\<open>minimum_version_\<close> and \<^verbatim>\<open>minimum_services_\<close>.
  The constructor with two arguments after the channel stores them as given; the
  other one passes the configured \<^verbatim>\<open>protocol_minimum\<close> and \<^verbatim>\<open>services\<close>.
\<close>

record protocol_version_31402 =
  minimum_version_field :: u32
  minimum_services_field :: u64

definition protocol_version_31402_with ::
  "u32 \<Rightarrow> u64 \<Rightarrow> protocol_version_31402" where
  "protocol_version_31402_with minimum_version minimum_services =
     \<lparr>minimum_version_field = minimum_version,
      minimum_services_field = minimum_services\<rparr>"

definition protocol_version_31402_default :: "settings \<Rightarrow> protocol_version_31402" where
  "protocol_version_31402_default network_settings =
     protocol_version_31402_with (protocol_minimum network_settings)
       (services network_settings)"

text \<open>
  \<^verbatim>\<open>start\<close>: the timer is started with a synchroniser of clearance count 2 around the
  caller's handler, both subscriptions are made, and the version message is sent.
\<close>

definition start ::
  "string \<Rightarrow> u64 \<Rightarrow> authority \<Rightarrow> settings \<Rightarrow> u64 \<Rightarrow> u64 \<Rightarrow> action list" where
  "start BC_USER_AGENT time_stamp authority settings nonce' height =
     [Timer_start (channel_handshake settings) 2,
      Subscribe version_sub,
      Subscribe verack_sub,
      Send (Version_message
              (version_factory BC_USER_AGENT time_stamp authority settings nonce' height))
           handle_version_sent_cb]"

text \<open>The two static rejections of \<^verbatim>\<open>handle_receive_version\<close>.\<close>

definition rejection_services :: reject where
  "rejection_services =
     \<lparr>reject_message = version_command, reject_code = obsolete,
      reject_reason = ''insufficient-services''\<rparr>"

definition rejection_version :: reject where
  "rejection_version =
     \<lparr>reject_message = version_command, reject_code = obsolete,
      reject_reason = ''insufficient-version''\<rparr>"

text \<open>
  \<^verbatim>\<open>handle_receive_version\<close>, branch by branch in the order of the source. The first
  argument after the protocol and the settings is what \<^verbatim>\<open>stopped()\<close> returns.
\<close>

definition handle_receive_version ::
  "level \<Rightarrow> protocol_version_31402 \<Rightarrow> settings \<Rightarrow> bool \<Rightarrow> code \<Rightarrow> version
     \<Rightarrow> action list \<times> bool" where
  "handle_receive_version lvl this settings stopped ec message =
     (if stopped then ([], False)
      else if ec \<noteq> success then ([Set_event ec], False)
      else if protocol_minimum settings < level_minimum lvl
        then ([Set_event channel_stopped], False)
      else if protocol_maximum settings > level_maximum lvl
        then ([Set_event channel_stopped], False)
      else if protocol_minimum settings > protocol_maximum settings
        then ([Set_event channel_stopped], False)
      else if version_services message AND minimum_services_field this
                \<noteq> minimum_services_field this
        then ([Send (Reject_message rejection_services)
                 (handle_send_cb reject_command),
               Set_event channel_stopped], False)
      else if version_value message < minimum_version_field this
        then ([Send (Reject_message rejection_version)
                 (handle_send_cb reject_command),
               Set_event channel_stopped], False)
      else
        (let version = min (version_value message) (protocol_maximum settings)
         in ([Set_negotiated_version version,
              Send Verack_message handle_verack_sent_cb,
              Set_event success], False)))"

text \<open>\<^verbatim>\<open>handle_receive_verack\<close>.\<close>

definition handle_receive_verack :: "bool \<Rightarrow> code \<Rightarrow> action list \<times> bool" where
  "handle_receive_verack stopped ec =
     (if stopped then ([], False)
      else if ec \<noteq> success then ([Set_event ec], False)
      else ([Set_event success], False))"

text \<open>\<^verbatim>\<open>handle_version_sent\<close> and \<^verbatim>\<open>handle_verack_sent\<close> return nothing.\<close>

definition handle_version_sent :: "bool \<Rightarrow> code \<Rightarrow> action list" where
  "handle_version_sent stopped ec =
     (if stopped then []
      else if ec \<noteq> success then [Set_event ec]
      else [])"

definition handle_verack_sent :: "bool \<Rightarrow> code \<Rightarrow> action list" where
  "handle_verack_sent stopped ec =
     (if stopped then []
      else if ec \<noteq> success then [Set_event ec]
      else [])"

section \<open>The channel under a started handshake\<close>

text \<open>
  The channel, the message subscriber, \<^verbatim>\<open>protocol_events::set_event\<close> and the
  synchroniser made by \<^verbatim>\<open>synchronize(handler, 2, NAME, false)\<close> are not part of the
  protocol's source file. The state below holds what they keep for one handshake:
  the negotiated version, the messages handed to the channel, the synchroniser's counter
  with its clearance count, the calls made to the handler given to \<^verbatim>\<open>start\<close>, and the
  two subscriptions. \<open>signalled\<close> logs every code passed to \<^verbatim>\<open>set_event\<close>, in order;
  \<open>version_seen\<close> and \<open>verack_seen\<close> count the calls of the two receive handlers.
\<close>

record channel =
  negotiated_version :: u32
  outbox :: "(message \<times> completion) list"
  timer :: "nat option"
  clearance :: nat
  completed :: nat
  fired :: bool
  signalled :: "code list"
  handler_calls :: "code list"
  version_subscribed :: bool
  verack_subscribed :: bool
  version_seen :: nat
  verack_seen :: nat

text \<open>
  Modelled from the spec: the synchroniser, which is missing from the source files.
  ``The handshake handler is invoked once when both events have occurred (success) or
  any error has occurred (failure); subsequent events are ignored.'' A success is
  counted; the handler is called with success when the count reaches the clearance
  count, and with the error code at the first error.
\<close>

definition synchronizer :: "code \<Rightarrow> channel \<Rightarrow> channel" where
  "synchronizer ec c =
     (if fired c then c
      else if ec \<noteq> success
        then c\<lparr>fired := True, handler_calls := handler_calls c @ [ec]\<rparr>
      else if Suc (completed c) = clearance c
        then c\<lparr>completed := Suc (completed c), fired := True,
                handler_calls := handler_calls c @ [success]\<rparr>
      else c\<lparr>completed := Suc (completed c)\<rparr>)"

text \<open>
  Modelled from the spec: \<^verbatim>\<open>protocol_events::set_event\<close>, which hands the code to the
  handler installed by \<^verbatim>\<open>protocol_timer::start\<close>, here the synchroniser.
\<close>

definition set_event :: "code \<Rightarrow> channel \<Rightarrow> channel" where
  "set_event ec c = synchronizer ec (c\<lparr>signalled := signalled c @ [ec]\<rparr>)"

text \<open>
  Modelled from the spec: the effect of each call on the channel. A send appends to the
  messages handed to the channel, \<^verbatim>\<open>set_negotiated_version\<close> stores the version, a
  subscription registers the handler, and starting the timer installs the synchroniser.
\<close>

fun apply_action :: "action \<Rightarrow> channel \<Rightarrow> channel" where
  "apply_action (Send m h) c = c\<lparr>outbox := outbox c @ [(m, h)]\<rparr>"
| "apply_action (Set_event ec) c = set_event ec c"
| "apply_action (Set_negotiated_version v) c = c\<lparr>negotiated_version := v\<rparr>"
| "apply_action (Subscribe version_sub) c = c\<lparr>version_subscribed := True\<rparr>"
| "apply_action (Subscribe verack_sub) c = c\<lparr>verack_subscribed := True\<rparr>"
| "apply_action (Timer_start t n) c =
     c\<lparr>timer := Some t, clearance := n, completed := 0, fired := False\<rparr>"

fun apply_actions :: "action list \<Rightarrow> channel \<Rightarrow> channel" where
  "apply_actions [] c = c"
| "apply_actions (a # as) c = apply_actions as (apply_action a c)"

text \<open>
  Modelled from the spec: a new channel. Its negotiated version is ``initially
  protocol_minimum''; nothing is subscribed and nothing has been sent.
\<close>

definition new_channel :: "settings \<Rightarrow> channel" where
  "new_channel settings =
     \<lparr>negotiated_version = protocol_minimum settings, outbox = [], timer = None,
      clearance = 0, completed = 0, fired = False, signalled = [], handler_calls = [],
      version_subscribed = False, verack_subscribed = False,
      version_seen = 0, verack_seen = 0\<rparr>"

text \<open>
  What can happen to a started protocol: a version or a verack (or the failure to
  receive one) reaches the subscriber, a send completes, or the handshake timer
  expires. Each carries what \<^verbatim>\<open>stopped()\<close> returns at that moment.
\<close>

datatype event =
    Receive_version bool code version
  | Receive_verack bool code
  | Version_sent bool code
  | Verack_sent bool code
  | Timer_expired

text \<open>
  Modelled from the spec: the message subscriber and the timer. ``A handler returning
  false unsubscribes itself; returning true keeps it.'' A message for which no handler
  is subscribed changes nothing. The timer's ``expiry triggers ChannelTimeout''.
\<close>

fun step ::
  "level \<Rightarrow> protocol_version_31402 \<Rightarrow> settings \<Rightarrow> event \<Rightarrow> channel \<Rightarrow> channel" where
  "step lvl this settings (Receive_version stopped ec message) c =
     (if version_subscribed c
      then (let (actions, keep) =
                  handle_receive_version lvl this settings stopped ec message
            in (apply_actions actions c)
                 \<lparr>version_subscribed := keep, version_seen := Suc (version_seen c)\<rparr>)
      else c)"
| "step lvl this settings (Receive_verack stopped ec) c =
     (if verack_subscribed c
      then (let (actions, keep) = handle_receive_verack stopped ec
            in (apply_actions actions c)
                 \<lparr>verack_subscribed := keep, verack_seen := Suc (verack_seen c)\<rparr>)
      else c)"
| "step lvl this settings (Version_sent stopped ec) c =
     apply_actions (handle_version_sent stopped ec) c"
| "step lvl this settings (Verack_sent stopped ec) c =
     apply_actions (handle_verack_sent stopped ec) c"
| "step lvl this settings Timer_expired c = set_event channel_timeout c"

text \<open>A run: the events one after the other.\<close>

fun run ::
  "level \<Rightarrow> protocol_version_31402 \<Rightarrow> settings \<Rightarrow> event list \<Rightarrow> channel \<Rightarrow> channel" where
  "run lvl this settings [] c = c"
| "run lvl this settings (e # es) c = run lvl this settings es (step lvl this settings e c)"

text \<open>
  The handler calls that a sequence of signalled codes must lead to, in the words of the
  spec: the first error decides, or else the \<open>k\<close>-th success does, and whatever is
  signalled afterwards is ignored.
\<close>

fun outcome :: "nat \<Rightarrow> code list \<Rightarrow> code list" where
  "outcome k [] = []"
| "outcome k (ec # ecs) =
     (if ec \<noteq> success then [ec]
      else if k = 1 then [success]
      else outcome (k - 1) ecs)"

text \<open>A version message that \<^verbatim>\<open>handle_receive_version\<close> answers with a verack.\<close>

definition version_accepted ::
  "level \<Rightarrow> protocol_version_31402 \<Rightarrow> settings \<Rightarrow> version \<Rightarrow> bool" where
  "version_accepted lvl this settings message \<longleftrightarrow>
     Send Verack_message handle_verack_sent_cb
       \<in> set (fst (handle_receive_version lvl this settings False success message))"

text \<open>The channel right after \<^verbatim>\<open>start\<close> has returned.\<close>

definition started ::
  "string \<Rightarrow> u64 \<Rightarrow> authority \<Rightarrow> settings \<Rightarrow> u64 \<Rightarrow> u64 \<Rightarrow> channel" where
  "started BC_USER_AGENT time_stamp authority settings nonce' height =
     apply_actions (start BC_USER_AGENT time_stamp authority settings nonce' height)
       (new_channel settings)"

section \<open>The handshake in the words of the specification\<close>






text \<open>What the synchroniser keeps in a channel, and one signalled code on it.\<close>

definition sync_of :: "channel \<Rightarrow> bool \<times> nat \<times> nat \<times> code list" where
  "sync_of c = (fired c, completed c, clearance c, handler_calls c)"

definition sync_step :: "code \<Rightarrow> bool \<times> nat \<times> nat \<times> code list \<Rightarrow> bool \<times> nat \<times> nat \<times> code list" where
  "sync_step ec s =
     (case s of
        (f, n, k, hs) \<Rightarrow>
          if f then s
          else if ec \<noteq> success then (True, n, k, hs @ [ec])
          else if Suc n = k then (True, Suc n, k, hs @ [success])
          else (False, Suc n, k, hs))"

section \<open>Invariants of a running handshake\<close>

text \<open>
  The synchroniser's state agrees with the codes signalled so far: it has fired exactly
  when the handler has been called, and before that it has counted only successes.
\<close>

definition sync_inv :: "channel \<Rightarrow> bool" where
  "sync_inv c \<longleftrightarrow>
     clearance c = 2 \<and>
     handler_calls c = outcome 2 (signalled c) \<and>
     (fired c \<longleftrightarrow> handler_calls c \<noteq> []) \<and>
     (handler_calls c = [success] \<longrightarrow> completed c = 2) \<and>
     (\<not> fired c \<longrightarrow> completed c < 2 \<and> signalled c = replicate (completed c) success)"

text \<open>The accepted version message and the verack, as events of a run.\<close>

definition version_done :: "level \<Rightarrow> protocol_version_31402 \<Rightarrow> settings \<Rightarrow> event list \<Rightarrow> bool" where
  "version_done lvl this cfg evs \<longleftrightarrow>
     (\<exists>m. Receive_version False success m \<in> set evs \<and> version_accepted lvl this cfg m)"

definition verack_done :: "event list \<Rightarrow> bool" where
  "verack_done evs \<longleftrightarrow> Receive_verack False success \<in> set evs"

text \<open>A subscription that is still held has not been called, and none is called twice.\<close>

definition sub_inv :: "channel \<Rightarrow> bool" where
  "sub_inv c \<longleftrightarrow>
     (version_subscribed c \<longrightarrow> version_seen c = 0) \<and> version_seen c \<le> 1 \<and>
     (verack_subscribed c \<longrightarrow> verack_seen c = 0) \<and> verack_seen c \<le> 1"

text \<open>
  Every success that the synchroniser has counted comes from a subscription that has
  been used up and from the event that used it.
\<close>

definition done_inv ::
  "level \<Rightarrow> protocol_version_31402 \<Rightarrow> settings \<Rightarrow> event list \<Rightarrow> channel \<Rightarrow> bool" where
  "done_inv lvl this cfg evs c \<longleftrightarrow>
     (1 \<le> completed c \<longrightarrow>
        (\<not> version_subscribed c \<and> version_done lvl this cfg evs) \<or>
        (\<not> verack_subscribed c \<and> verack_done evs)) \<and>
     (2 \<le> completed c \<longrightarrow>
        \<not> version_subscribed c \<and> version_done lvl this cfg evs \<and>
        \<not> verack_subscribed c \<and> verack_done evs)"

text \<open>
  The negotiated version of the channel is the one it was made with, or the one that an
  accepted version message has set.
\<close>

definition version_inv ::
  "level \<Rightarrow> protocol_version_31402 \<Rightarrow> settings \<Rightarrow> channel \<Rightarrow> bool" where
  "version_inv lvl this cfg c \<longleftrightarrow>
     negotiated_version c = protocol_minimum cfg \<or>
     (\<exists>m. version_accepted lvl this cfg m \<and>
          negotiated_version c = min (version_value m) (protocol_maximum cfg))"

text \<open>A configuration, a peer and a protocol object to run the handshake on.\<close>

definition level_example :: level where
  "level_example = \<lparr>level_minimum = 31402, level_maximum = 70012\<rparr>"

definition settings_example :: settings where
  "settings_example =
     \<lparr>protocol_minimum = 31402, protocol_maximum = 70012, services = 1,
      self = \<lparr>ip_field = [0, 0, 0, 0, 0, 0, 0, 0, 0, 0, 255, 255, 10, 0, 0, 1],
              port_field = 8333\<rparr>,
      channel_handshake = 30\<rparr>"

definition peer_authority_example :: authority where
  "peer_authority_example =
     \<lparr>ip_field = [0, 0, 0, 0, 0, 0, 0, 0, 0, 0, 255, 255, 1, 2, 3, 4], port_field = 8333\<rparr>"

definition peer_version_example :: "u32 \<Rightarrow> u64 \<Rightarrow> version" where
  "peer_version_example v s =
     \<lparr>version_value = v, version_services = s, version_timestamp = 1460000000,
      address_recevier = to_network_address (self settings_example),
      address_sender = to_network_address peer_authority_example,
      nonce = 7, user_agent = ''/Satoshi:0.12.0/'', start_height = 400000\<rparr>"

section \<open>Properties\<close>

subsection \<open>The synchroniser and the run of events\<close>

lemma outcome_stable: "outcome k xs \<noteq> [] \<Longrightarrow> outcome k (xs @ ys) = outcome k xs"
  by (induction k xs rule: outcome.induct) auto

lemma sync_inv_set_event: "sync_inv c \<Longrightarrow> sync_inv (set_event ec c)"
proof -
  assume inv: "sync_inv c"
  show ?thesis
  proof (cases "fired c")
    case True
    with inv have "outcome 2 (signalled c) \<noteq> []"
      by (auto simp add: sync_inv_def)
    then have "outcome 2 (signalled c @ [ec]) = outcome 2 (signalled c)"
      by (rule outcome_stable)
    with True inv show ?thesis
      by (auto simp add: sync_inv_def set_event_def synchronizer_def)
  next
    case False
    with inv have "completed c = 0 \<or> completed c = 1"
      by (auto simp add: sync_inv_def)
    with False inv show ?thesis
      by (auto simp add: sync_inv_def set_event_def synchronizer_def)
  qed
qed


lemma set_event_other [simp]:
  "version_subscribed (set_event ec c) = version_subscribed c"
  "verack_subscribed (set_event ec c) = verack_subscribed c"
  "version_seen (set_event ec c) = version_seen c"
  "verack_seen (set_event ec c) = verack_seen c"
  "negotiated_version (set_event ec c) = negotiated_version c"
  "outbox (set_event ec c) = outbox c"
  "clearance (set_event ec c) = clearance c"
  by (simp_all add: set_event_def synchronizer_def)

text \<open>The handlers, as the actions of one event.\<close>

lemma version_cases:
  "handle_receive_version lvl this cfg st ec m = ([], False) \<or>
   (\<exists>e. e \<noteq> success \<and> handle_receive_version lvl this cfg st ec m = ([Set_event e], False)) \<or>
   (\<exists>r h. handle_receive_version lvl this cfg st ec m = ([Send r h, Set_event channel_stopped], False)) \<or>
   (\<not> st \<and> ec = success \<and> version_accepted lvl this cfg m \<and>
     (\<exists>v. handle_receive_version lvl this cfg st ec m =
        ([Set_negotiated_version v, Send Verack_message handle_verack_sent_cb, Set_event success], False)))"
  by (auto simp add: handle_receive_version_def version_accepted_def Let_def)


lemma version_shapes:
  obtains (ignored) "handle_receive_version lvl this cfg st ec m = ([], False)"
  | (failed) e where "e \<noteq> success"
      "handle_receive_version lvl this cfg st ec m = ([Set_event e], False)"
  | (rejected) r h where
      "handle_receive_version lvl this cfg st ec m = ([Send r h, Set_event channel_stopped], False)"
  | (accepted) v where "\<not> st" "ec = success" "version_accepted lvl this cfg m"
      "handle_receive_version lvl this cfg st ec m =
        ([Set_negotiated_version v, Send Verack_message handle_verack_sent_cb,
          Set_event success], False)"
  using version_cases [of lvl this cfg st ec m] by blast

lemma sync_inv_other:
  "sync_inv (c\<lparr>outbox := x\<rparr>) = sync_inv c"
  "sync_inv (c\<lparr>negotiated_version := v\<rparr>) = sync_inv c"
  "sync_inv (c\<lparr>version_subscribed := b, version_seen := k\<rparr>) = sync_inv c"
  "sync_inv (c\<lparr>verack_subscribed := b, verack_seen := k\<rparr>) = sync_inv c"
  by (simp_all add: sync_inv_def)

lemma run_snoc: "run lvl this cfg (evs @ [e]) c = step lvl this cfg e (run lvl this cfg evs c)"
  by (induction evs arbitrary: c) simp_all

lemma sync_inv_step: "sync_inv c \<Longrightarrow> sync_inv (step lvl this cfg e c)"
proof (cases e)
  case (Receive_version st ec m)
  assume "sync_inv c"
  with Receive_version show ?thesis
    by (cases rule: version_shapes [of lvl this cfg st ec m])
       (simp_all add: sync_inv_other sync_inv_set_event)
next
  case (Receive_verack st ec)
  assume "sync_inv c"
  with Receive_verack show ?thesis
    by (simp add: handle_receive_verack_def sync_inv_other sync_inv_set_event)
next
  case (Version_sent st ec)
  assume "sync_inv c"
  with Version_sent show ?thesis
    by (simp add: handle_version_sent_def sync_inv_set_event)
next
  case (Verack_sent st ec)
  assume "sync_inv c"
  with Verack_sent show ?thesis
    by (simp add: handle_verack_sent_def sync_inv_set_event)
next
  case Timer_expired
  assume "sync_inv c"
  with Timer_expired show ?thesis
    by (simp add: sync_inv_set_event)
qed

lemma sub_inv_step: "sub_inv c \<Longrightarrow> sub_inv (step lvl this cfg e c)"
proof (cases e)
  case (Receive_version st ec m)
  assume "sub_inv c"
  with Receive_version show ?thesis
    by (cases rule: version_shapes [of lvl this cfg st ec m])
       (simp_all add: sub_inv_def)
next
  case (Receive_verack st ec)
  assume "sub_inv c"
  with Receive_verack show ?thesis
    by (simp add: handle_receive_verack_def sub_inv_def)
next
  case (Version_sent st ec)
  assume "sub_inv c"
  with Version_sent show ?thesis
    by (simp add: handle_version_sent_def sub_inv_def)
next
  case (Verack_sent st ec)
  assume "sub_inv c"
  with Verack_sent show ?thesis
    by (simp add: handle_verack_sent_def sub_inv_def)
next
  case Timer_expired
  assume "sub_inv c"
  with Timer_expired show ?thesis
    by (simp add: sub_inv_def)
qed

lemma set_event_completed_eq:
  "completed (set_event ec c) =
     (if fired c \<or> ec \<noteq> success then completed c else Suc (completed c))"
  by (simp add: set_event_def synchronizer_def)

lemma step_summary:
  "(completed (step lvl this cfg e c) = completed c \<and>
      (version_subscribed (step lvl this cfg e c) \<longrightarrow> version_subscribed c) \<and>
      (verack_subscribed (step lvl this cfg e c) \<longrightarrow> verack_subscribed c)) \<or>
   (completed (step lvl this cfg e c) \<le> Suc (completed c) \<and>
      version_subscribed c \<and> \<not> version_subscribed (step lvl this cfg e c) \<and>
      verack_subscribed (step lvl this cfg e c) = verack_subscribed c \<and>
      (\<exists>m. e = Receive_version False success m \<and> version_accepted lvl this cfg m)) \<or>
   (completed (step lvl this cfg e c) \<le> Suc (completed c) \<and>
      verack_subscribed c \<and> \<not> verack_subscribed (step lvl this cfg e c) \<and>
      version_subscribed (step lvl this cfg e c) = version_subscribed c \<and>
      e = Receive_verack False success)"
proof (cases e)
  case (Receive_version st ec m)
  then show ?thesis
    by (cases rule: version_shapes [of lvl this cfg st ec m])
       (simp_all add: set_event_completed_eq)
next
  case (Receive_verack st ec)
  then show ?thesis
    by (simp add: handle_receive_verack_def set_event_completed_eq)
next
  case (Version_sent st ec)
  then show ?thesis
    by (simp add: handle_version_sent_def set_event_completed_eq)
next
  case (Verack_sent st ec)
  then show ?thesis
    by (simp add: handle_verack_sent_def set_event_completed_eq)
next
  case Timer_expired
  then show ?thesis
    by (simp add: set_event_completed_eq)
qed

lemma done_snoc:
  "version_done lvl this cfg evs \<Longrightarrow> version_done lvl this cfg (evs @ [e])"
  "verack_done evs \<Longrightarrow> verack_done (evs @ [e])"
  "version_accepted lvl this cfg m \<Longrightarrow> version_done lvl this cfg (evs @ [Receive_version False success m])"
  "verack_done (evs @ [Receive_verack False success])"
  by (auto simp add: version_done_def verack_done_def)

lemma done_inv_step:
  assumes inv: "done_inv lvl this cfg evs c"
  shows "done_inv lvl this cfg (evs @ [e]) (step lvl this cfg e c)"
proof -
  let ?c = "step lvl this cfg e c"
  from step_summary [of lvl this cfg e c] consider
    (same) "completed ?c = completed c"
      "version_subscribed ?c \<longrightarrow> version_subscribed c"
      "verack_subscribed ?c \<longrightarrow> verack_subscribed c"
  | (version) m where "completed ?c \<le> Suc (completed c)"
      "version_subscribed c" "\<not> version_subscribed ?c"
      "verack_subscribed ?c = verack_subscribed c"
      "e = Receive_version False success m" "version_accepted lvl this cfg m"
  | (verack) "completed ?c \<le> Suc (completed c)"
      "verack_subscribed c" "\<not> verack_subscribed ?c"
      "version_subscribed ?c = version_subscribed c"
      "e = Receive_verack False success"
    by blast
  then show ?thesis
  proof cases
    case same
    with inv show ?thesis
      unfolding done_inv_def using done_snoc(1) [of lvl this cfg evs e] done_snoc(2) [of evs e]
      by auto
  next
    case version
    have vd: "version_done lvl this cfg (evs @ [e])"
      using version by (simp add: done_snoc)
    from inv version have one: "completed c \<le> 1"
      unfolding done_inv_def by (cases "2 \<le> completed c") auto
    from inv version have k: "1 \<le> completed c \<longrightarrow> \<not> verack_subscribed c \<and> verack_done evs"
      unfolding done_inv_def by auto
    have "2 \<le> completed ?c \<longrightarrow> 1 \<le> completed c"
      using version(1) by arith
    with k version vd done_snoc(2) [of evs e] show ?thesis
      unfolding done_inv_def by auto
  next
    case verack
    have kd: "verack_done (evs @ [e])"
      using verack by (simp add: done_snoc)
    from inv verack have v: "1 \<le> completed c \<longrightarrow> \<not> version_subscribed c \<and> version_done lvl this cfg evs"
      unfolding done_inv_def by auto
    have "2 \<le> completed ?c \<longrightarrow> 1 \<le> completed c"
      using verack(1) by arith
    with v verack kd done_snoc(1) [of lvl this cfg evs e] show ?thesis
      unfolding done_inv_def by auto
  qed
qed

lemma invs_started:
  "sync_inv (started ua ts a cfg n h)"
  "sub_inv (started ua ts a cfg n h)"
  "done_inv lvl this cfg [] (started ua ts a cfg n h)"
  by (simp_all add: sync_inv_def sub_inv_def done_inv_def started_def start_def new_channel_def)

lemma sync_inv_run: "sync_inv (run lvl this cfg evs (started ua ts a cfg n h))"
proof (induction evs rule: rev_induct)
  case Nil
  show ?case by (simp add: invs_started)
next
  case (snoc e evs)
  then show ?case by (simp only: run_snoc sync_inv_step)
qed

lemma sub_inv_run: "sub_inv (run lvl this cfg evs (started ua ts a cfg n h))"
proof (induction evs rule: rev_induct)
  case Nil
  show ?case by (simp add: invs_started)
next
  case (snoc e evs)
  then show ?case by (simp only: run_snoc sub_inv_step)
qed

lemma done_inv_run: "done_inv lvl this cfg evs (run lvl this cfg evs (started ua ts a cfg n h))"
proof (induction evs rule: rev_induct)
  case Nil
  show ?case by (simp add: invs_started)
next
  case (snoc e evs)
  then show ?case by (simp only: run_snoc done_inv_step)
qed











lemma sync_of_other [simp]:
  "sync_of (c\<lparr>outbox := x\<rparr>) = sync_of c"
  "sync_of (c\<lparr>negotiated_version := v\<rparr>) = sync_of c"
  "sync_of (c\<lparr>version_subscribed := b, version_seen := k\<rparr>) = sync_of c"
  "sync_of (c\<lparr>verack_subscribed := b, verack_seen := k\<rparr>) = sync_of c"
  by (simp_all add: sync_of_def)

lemma sync_of_set_event [simp]: "sync_of (set_event ec c) = sync_step ec (sync_of c)"
  by (simp add: sync_of_def set_event_def synchronizer_def sync_step_def)













subsection \<open>The version message that is sent\<close>

text \<open>
  C2. For every peer authority, settings, nonce and height with height at most
  \<open>2^32 - 1\<close>, the message built by \<^verbatim>\<open>version_factory\<close> has the configured
  \<^verbatim>\<open>protocol_maximum\<close> as value and the configured services, the given nonce, the
  height truncated to 32 bits (which is the height itself) as start height, the user
  agent string of the build, the peer authority with services 0 as receiver address
  and the configured \<^verbatim>\<open>self\<close> authority with the configured services as sender
  address.
\<close>

theorem version_factory_fields:
  assumes "height_asserted height"
  shows "version_value (version_factory ua ts a cfg n height) = protocol_maximum cfg \<and>
     version_services (version_factory ua ts a cfg n height) = services cfg \<and>
     nonce (version_factory ua ts a cfg n height) = n \<and>
     start_height (version_factory ua ts a cfg n height) = ucast height \<and>
     unat (start_height (version_factory ua ts a cfg n height)) = unat height \<and>
     user_agent (version_factory ua ts a cfg n height) = ua \<and>
     address_recevier (version_factory ua ts a cfg n height) =
       \<lparr>addr_timestamp = 0, addr_services = 0,
        addr_ip = ip_field a, addr_port = port_field a\<rparr> \<and>
     address_sender (version_factory ua ts a cfg n height) =
       \<lparr>addr_timestamp = 0, addr_services = services cfg,
        addr_ip = ip_field (self cfg), addr_port = port_field (self cfg)\<rparr>"
proof -
  have "unat height < 2 ^ 32"
    using assms by (simp add: height_asserted_def max_uint32_def word_le_nat_alt)
  then have "unat (ucast height :: u32) = unat height"
    by (simp add: unsigned_ucast_eq take_bit_nat_eq_self)
  then show ?thesis
    by (simp add: version_factory_def Let_def service_none_def to_network_address_def
        ip_def port_def)
qed

theorem version_factory_fields_witness:
  "height_asserted 400000 \<and>
   start_height (version_factory ''/libbitcoin:3.0.0/'' 1460000000 peer_authority_example
      settings_example 7 400000) = 400000 \<and>
   address_recevier (version_factory ''/libbitcoin:3.0.0/'' 1460000000 peer_authority_example
      settings_example 7 400000) =
     \<lparr>addr_timestamp = 0, addr_services = 0,
      addr_ip = [0, 0, 0, 0, 0, 0, 0, 0, 0, 0, 255, 255, 1, 2, 3, 4], addr_port = 8333\<rparr>"
proof -
  have h: "height_asserted 400000"
    by (simp add: height_asserted_def max_uint32_def)
  show ?thesis
    using h version_factory_fields [OF h, of "''/libbitcoin:3.0.0/''" 1460000000
      peer_authority_example settings_example 7]
    by (simp add: peer_authority_example_def)
qed

subsection \<open>Receiving the peer's version\<close>

text \<open>
  C8. When a version message is received (the protocol is not stopped and the receipt
  did not fail) and the configuration violates one of
  \<open>level::minimum \<le> protocol_minimum\<close>, \<open>protocol_maximum \<le> level::maximum\<close> and
  \<open>protocol_minimum \<le> protocol_maximum\<close>, the handler signals \<open>channel_stopped\<close> and
  does nothing else, whatever the message holds: nothing is sent, no check of the
  peer's services or version decides anything, no negotiated version is set.
\<close>

theorem configuration_checked_first:
  assumes "\<not> stopped" and "ec = success"
    and "\<not> (level_minimum lvl \<le> protocol_minimum cfg) \<or>
         \<not> (protocol_maximum cfg \<le> level_maximum lvl) \<or>
         \<not> (protocol_minimum cfg \<le> protocol_maximum cfg)"
  shows "handle_receive_version lvl this cfg stopped ec m = ([Set_event channel_stopped], False)"
  using assms
  by (auto simp add: handle_receive_version_def Let_def not_less not_le)


theorem configuration_checked_first_witness:
  "handle_receive_version level_example (protocol_version_31402_default settings_example)
     (settings_example\<lparr>protocol_minimum := 70013\<rparr>) False success (peer_version_example 70012 1)
   = ([Set_event channel_stopped], False)"
proof -
  have h: "\<not> (level_minimum level_example
                 \<le> protocol_minimum (settings_example\<lparr>protocol_minimum := 70013\<rparr>)) \<or>
           \<not> (protocol_maximum (settings_example\<lparr>protocol_minimum := 70013\<rparr>)
                 \<le> level_maximum level_example) \<or>
           \<not> (protocol_minimum (settings_example\<lparr>protocol_minimum := 70013\<rparr>)
                 \<le> protocol_maximum (settings_example\<lparr>protocol_minimum := 70013\<rparr>))"
    by (simp add: settings_example_def level_example_def)
  show ?thesis
    using configuration_checked_first [OF _ refl h, of False] by simp
qed

text \<open>
  C5. For a received version message that passes the configuration checks: if the
  peer's services masked with the minimum services differ from the minimum services, a
  reject with message \<open>version\<close>, code \<open>obsolete\<close> and reason \<open>insufficient-services\<close> is
  sent and \<open>channel_stopped\<close> is signalled; if the services suffice and the peer's
  version is below the minimum version, the same happens with the reason
  \<open>insufficient-version\<close>. In neither case is a negotiated version set.
\<close>

theorem insufficient_peer_rejected:
  assumes "\<not> stopped" and "ec = success"
    and "level_minimum lvl \<le> protocol_minimum cfg"
    and "protocol_maximum cfg \<le> level_maximum lvl"
    and "protocol_minimum cfg \<le> protocol_maximum cfg"
  shows "(version_services m AND minimum_services_field this \<noteq> minimum_services_field this \<longrightarrow>
      handle_receive_version lvl this cfg stopped ec m =
        ([Send (Reject_message \<lparr>reject_message = ''version'', reject_code = obsolete,
                 reject_reason = ''insufficient-services''\<rparr>) (handle_send_cb ''reject''),
          Set_event channel_stopped], False)) \<and>
     (version_services m AND minimum_services_field this = minimum_services_field this \<and>
      version_value m < minimum_version_field this \<longrightarrow>
      handle_receive_version lvl this cfg stopped ec m =
        ([Send (Reject_message \<lparr>reject_message = ''version'', reject_code = obsolete,
                 reject_reason = ''insufficient-version''\<rparr>) (handle_send_cb ''reject''),
          Set_event channel_stopped], False)) \<and>
     (version_services m AND minimum_services_field this \<noteq> minimum_services_field this \<or>
      version_value m < minimum_version_field this \<longrightarrow>
      (\<forall>v. Set_negotiated_version v \<notin> set (fst (handle_receive_version lvl this cfg stopped ec m))))"
  using assms
  by (auto simp add: handle_receive_version_def rejection_services_def rejection_version_def
      version_command_def reject_command_def not_less)

theorem insufficient_peer_rejected_witness:
  "handle_receive_version level_example (protocol_version_31402_default settings_example)
     settings_example False success (peer_version_example 70012 0) =
     ([Send (Reject_message \<lparr>reject_message = ''version'', reject_code = obsolete,
              reject_reason = ''insufficient-services''\<rparr>) (handle_send_cb ''reject''),
       Set_event channel_stopped], False) \<and>
   handle_receive_version level_example (protocol_version_31402_default settings_example)
     settings_example False success (peer_version_example 209 1) =
     ([Send (Reject_message \<lparr>reject_message = ''version'', reject_code = obsolete,
              reject_reason = ''insufficient-version''\<rparr>) (handle_send_cb ''reject''),
       Set_event channel_stopped], False)"
proof -
  have c1: "level_minimum level_example \<le> protocol_minimum settings_example"
    and c2: "protocol_maximum settings_example \<le> level_maximum level_example"
    and c3: "protocol_minimum settings_example \<le> protocol_maximum settings_example"
    by (simp_all add: settings_example_def level_example_def)
  have n: "\<not> False" by simp
  show ?thesis
    using insufficient_peer_rejected [OF n refl c1 c2 c3,
        of "peer_version_example 70012 0" "protocol_version_31402_default settings_example"]
      insufficient_peer_rejected [OF n refl c1 c2 c3,
        of "peer_version_example 209 1" "protocol_version_31402_default settings_example"]
    by (simp add: peer_version_example_def protocol_version_31402_default_def
        protocol_version_31402_with_def settings_example_def)
qed

text \<open>
  C6. When a version message is received whose services and version meet the minimum
  requirements, and the configuration checks pass, the handler sets the negotiated
  version to the smaller of the peer's value and the configured \<^verbatim>\<open>protocol_maximum\<close>,
  then sends a verack, then signals success.
\<close>

theorem version_negotiated:
  assumes "\<not> stopped" and "ec = success"
    and "level_minimum lvl \<le> protocol_minimum cfg"
    and "protocol_maximum cfg \<le> level_maximum lvl"
    and "protocol_minimum cfg \<le> protocol_maximum cfg"
    and "version_services m AND minimum_services_field this = minimum_services_field this"
    and "minimum_version_field this \<le> version_value m"
  shows "handle_receive_version lvl this cfg stopped ec m =
     ([Set_negotiated_version (min (version_value m) (protocol_maximum cfg)),
       Send Verack_message handle_verack_sent_cb,
       Set_event success], False)"
  using assms
  by (auto simp add: handle_receive_version_def Let_def not_less)

theorem version_negotiated_witness:
  "handle_receive_version level_example (protocol_version_31402_default settings_example)
     settings_example False success (peer_version_example 60001 1) =
     ([Set_negotiated_version 60001, Send Verack_message handle_verack_sent_cb,
       Set_event success], False)"
proof -
  have c1: "level_minimum level_example \<le> protocol_minimum settings_example"
    and c2: "protocol_maximum settings_example \<le> level_maximum level_example"
    and c3: "protocol_minimum settings_example \<le> protocol_maximum settings_example"
    by (simp_all add: settings_example_def level_example_def)
  have n: "\<not> False" by simp
  have s: "version_services (peer_version_example 60001 1)
        AND minimum_services_field (protocol_version_31402_default settings_example)
      = minimum_services_field (protocol_version_31402_default settings_example)"
    by (simp add: peer_version_example_def protocol_version_31402_default_def
        protocol_version_31402_with_def settings_example_def)
  have v: "minimum_version_field (protocol_version_31402_default settings_example)
      \<le> version_value (peer_version_example 60001 1)"
    by (simp add: peer_version_example_def protocol_version_31402_default_def
        protocol_version_31402_with_def settings_example_def)
  show ?thesis
    using version_negotiated [OF n refl c1 c2 c3 s v]
    by (simp add: peer_version_example_def settings_example_def)
qed

text \<open>
  C1, amended. Whenever \<^verbatim>\<open>handle_receive_version\<close> sets a negotiated version, the
  peer's services masked with the protocol's minimum services equal the minimum
  services and the negotiated version is at most \<^verbatim>\<open>protocol_maximum\<close>; it is at least
  \<^verbatim>\<open>protocol_minimum\<close> when the protocol was made by the constructor that takes the
  configured minimum, or by the other one with a minimum version that is not below
  \<^verbatim>\<open>protocol_minimum\<close>.
\<close>

theorem negotiated_version_in_range:
  assumes "Set_negotiated_version v \<in> set (fst (handle_receive_version lvl this cfg st ec m))"
  shows "v \<le> protocol_maximum cfg \<and>
         version_services m AND minimum_services_field this = minimum_services_field this \<and>
         (this = protocol_version_31402_default cfg \<or>
          (this = protocol_version_31402_with mv ms \<and> protocol_minimum cfg \<le> mv) \<longrightarrow>
          protocol_minimum cfg \<le> v)"
proof -
  from assms have v: "v = min (version_value m) (protocol_maximum cfg)"
    and cfg: "protocol_minimum cfg \<le> protocol_maximum cfg"
    and ok: "minimum_version_field this \<le> version_value m"
    and srv: "version_services m AND minimum_services_field this = minimum_services_field this"
    by (auto simp add: handle_receive_version_def Let_def not_less split: if_splits)
  have low: "protocol_minimum cfg \<le> v"
    if "this = protocol_version_31402_default cfg \<or>
        (this = protocol_version_31402_with mv ms \<and> protocol_minimum cfg \<le> mv)"
  proof -
    from that have "protocol_minimum cfg \<le> minimum_version_field this"
      by (auto simp add: protocol_version_31402_default_def protocol_version_31402_with_def)
    from this ok have "protocol_minimum cfg \<le> version_value m" by (rule order_trans)
    with v cfg show ?thesis by simp
  qed
  from v srv low show ?thesis by simp
qed

theorem negotiated_version_in_range_witness:
  "Set_negotiated_version 60001 \<in> set (fst (handle_receive_version level_example
      (protocol_version_31402_with 31800 1) settings_example False success
      (peer_version_example 60001 1))) \<and>
   protocol_minimum settings_example \<le> 31800 \<and>
   protocol_minimum settings_example \<le> 60001 \<and> 60001 \<le> protocol_maximum settings_example \<and>
   Set_negotiated_version 209 \<in> set (fst (handle_receive_version level_example
      (protocol_version_31402_with 209 1) settings_example False success
      (peer_version_example 209 1))) \<and>
   209 \<le> protocol_maximum settings_example \<and>
   version_services (peer_version_example 209 1)
     AND minimum_services_field (protocol_version_31402_with 209 1) =
   minimum_services_field (protocol_version_31402_with 209 1)"
proof -
  have a: "Set_negotiated_version 60001 \<in> set (fst (handle_receive_version level_example
      (protocol_version_31402_with 31800 1) settings_example False success
      (peer_version_example 60001 1)))"
    by (simp add: handle_receive_version_def level_example_def settings_example_def
        protocol_version_31402_with_def peer_version_example_def Let_def)
  have b: "protocol_minimum settings_example \<le> 31800"
    by (simp add: settings_example_def)
  have c: "protocol_version_31402_with 31800 1 = protocol_version_31402_default settings_example \<or>
      (protocol_version_31402_with 31800 1 = protocol_version_31402_with 31800 1 \<and>
       protocol_minimum settings_example \<le> 31800)"
    using b by simp
  have d: "Set_negotiated_version 209 \<in> set (fst (handle_receive_version level_example
      (protocol_version_31402_with 209 1) settings_example False success
      (peer_version_example 209 1)))"
    by (simp add: handle_receive_version_def level_example_def settings_example_def
        protocol_version_31402_with_def peer_version_example_def Let_def)
  show ?thesis
    using a b c d
      negotiated_version_in_range [OF a, of 31800 1]
      negotiated_version_in_range [OF d, of 209 1]
    by simp
qed

text \<open>
  On the channel: when the handler of a started protocol has been called with success,
  the negotiated version of the channel lies between \<^verbatim>\<open>protocol_minimum\<close> and
  \<^verbatim>\<open>protocol_maximum\<close>, for a protocol whose minimum version is not below
  \<^verbatim>\<open>protocol_minimum\<close>.
\<close>

lemma version_inv_other [simp]:
  "version_inv lvl this cfg (set_event ec c) = version_inv lvl this cfg c"
  "version_inv lvl this cfg (c\<lparr>outbox := x\<rparr>) = version_inv lvl this cfg c"
  "version_inv lvl this cfg (c\<lparr>version_subscribed := b, version_seen := k\<rparr>) =
     version_inv lvl this cfg c"
  "version_inv lvl this cfg (c\<lparr>verack_subscribed := b, verack_seen := k\<rparr>) =
     version_inv lvl this cfg c"
  by (simp_all add: version_inv_def)

lemma accepted_sets:
  assumes "version_accepted lvl this cfg m"
    and "handle_receive_version lvl this cfg st ec m =
        ([Set_negotiated_version v, Send Verack_message handle_verack_sent_cb,
          Set_event success], False)"
  shows "v = min (version_value m) (protocol_maximum cfg)"
  using assms(2)
  by (simp add: handle_receive_version_def Let_def split: if_splits)

lemma version_inv_step:
  assumes "version_inv lvl this cfg c"
  shows "version_inv lvl this cfg (step lvl this cfg e c)"
proof (cases e)
  case (Receive_version st ec m)
  show ?thesis
  proof (cases rule: version_shapes [of lvl this cfg st ec m])
    case ignored
    with assms Receive_version show ?thesis by simp
  next
    case (failed e')
    with assms Receive_version show ?thesis by simp
  next
    case (rejected r h)
    with assms Receive_version show ?thesis by simp
  next
    case (accepted v)
    from accepted_sets [OF accepted(3,4)] accepted(3)
    have "version_inv lvl this cfg (c\<lparr>negotiated_version := v\<rparr>)"
      by (auto simp add: version_inv_def)
    then have "version_inv lvl this cfg (c\<lparr>negotiated_version := v,
        outbox := outbox c @ [(Verack_message, handle_verack_sent_cb)]\<rparr>)"
      by (simp add: version_inv_def)
    with assms Receive_version accepted show ?thesis by simp
  qed
next
  case (Receive_verack st ec)
  with assms show ?thesis by (simp add: handle_receive_verack_def)
next
  case (Version_sent st ec)
  with assms show ?thesis by (simp add: handle_version_sent_def)
next
  case (Verack_sent st ec)
  with assms show ?thesis by (simp add: handle_verack_sent_def)
next
  case Timer_expired
  with assms show ?thesis by simp
qed

lemma version_inv_run:
  "version_inv lvl this cfg (run lvl this cfg evs (started ua ts a cfg n h))"
proof (induction evs rule: rev_induct)
  case Nil
  show ?case by (simp add: version_inv_def started_def start_def new_channel_def)
next
  case (snoc e evs)
  then show ?case by (simp only: run_snoc version_inv_step)
qed

lemma accepted_range:
  assumes "version_accepted lvl this cfg m"
  shows "protocol_minimum cfg \<le> protocol_maximum cfg \<and>
         minimum_version_field this \<le> version_value m \<and>
         version_services m AND minimum_services_field this = minimum_services_field this"
  using assms
  by (auto simp add: version_accepted_def handle_receive_version_def Let_def not_less
      split: if_splits)

lemma channel_version_after_handshake:
  assumes "handler_calls (run lvl this cfg evs (started ua ts a cfg n h)) = [success]"
    and "protocol_minimum cfg \<le> minimum_version_field this"
  shows "protocol_minimum cfg \<le> negotiated_version (run lvl this cfg evs (started ua ts a cfg n h)) \<and>
         negotiated_version (run lvl this cfg evs (started ua ts a cfg n h)) \<le> protocol_maximum cfg"
proof -
  let ?c = "run lvl this cfg evs (started ua ts a cfg n h)"
  have "sync_inv ?c" by (rule sync_inv_run)
  with assms(1) have "completed ?c = 2" by (simp add: sync_inv_def)
  with done_inv_run [of lvl this cfg evs ua ts a n h] obtain m0 where
    "version_accepted lvl this cfg m0"
    by (auto simp add: done_inv_def version_done_def)
  from accepted_range [OF this] have cfg: "protocol_minimum cfg \<le> protocol_maximum cfg" by simp
  from version_inv_run [of lvl this cfg evs ua ts a n h] show ?thesis
    unfolding version_inv_def
  proof
    assume "negotiated_version ?c = protocol_minimum cfg"
    with cfg show ?thesis by simp
  next
    assume "\<exists>m. version_accepted lvl this cfg m \<and>
      negotiated_version ?c = min (version_value m) (protocol_maximum cfg)"
    then obtain m where m: "version_accepted lvl this cfg m"
      and v: "negotiated_version ?c = min (version_value m) (protocol_maximum cfg)" by blast
    from accepted_range [OF m] assms(2) have "protocol_minimum cfg \<le> version_value m"
      by (auto intro: order_trans)
    with v cfg show ?thesis by simp
  qed
qed

text \<open>
  The claim as it is written fails for a protocol made with a minimum version below the
  configured minimum: a peer at version 209 is accepted and 209 becomes the negotiated
  version, below \<^verbatim>\<open>protocol_minimum\<close> = 31402.
\<close>

theorem negotiated_version_counterexample:
  "Set_negotiated_version 209 \<in> set (fst (handle_receive_version level_example
      (protocol_version_31402_with 209 0) settings_example False success
      (peer_version_example 209 0))) \<and>
   \<not> (protocol_minimum settings_example \<le> 209)"
  by (simp add: handle_receive_version_def level_example_def settings_example_def
      protocol_version_31402_with_def peer_version_example_def Let_def)

subsection \<open>The handshake handler\<close>




text \<open>
  C10. \<^verbatim>\<open>handle_receive_version\<close> and \<^verbatim>\<open>handle_receive_verack\<close> return false on
  every path. When the protocol is stopped they signal nothing and send nothing. As a
  handler that returns false is unsubscribed, a started protocol processes at most one
  version message and at most one verack.
\<close>

theorem receive_handlers_one_shot:
  "snd (handle_receive_version lvl this cfg st ec m) = False \<and>
   snd (handle_receive_verack st ec) = False \<and>
   fst (handle_receive_version lvl this cfg True ec m) = [] \<and>
   fst (handle_receive_verack True ec) = [] \<and>
   version_seen (run lvl this cfg evs (started ua ts a cfg n h)) \<le> 1 \<and>
   verack_seen (run lvl this cfg evs (started ua ts a cfg n h)) \<le> 1"
proof -
  have "snd (handle_receive_version lvl this cfg st ec m) = False"
    by (simp add: handle_receive_version_def Let_def)
  moreover have "snd (handle_receive_verack st ec) = False"
    by (simp add: handle_receive_verack_def)
  moreover have "fst (handle_receive_version lvl this cfg True ec m) = []"
    by (simp add: handle_receive_version_def)
  moreover have "fst (handle_receive_verack True ec) = []"
    by (simp add: handle_receive_verack_def)
  moreover from sub_inv_run [of lvl this cfg evs ua ts a n h]
  have "version_seen (run lvl this cfg evs (started ua ts a cfg n h)) \<le> 1"
    and "verack_seen (run lvl this cfg evs (started ua ts a cfg n h)) \<le> 1"
    by (simp_all add: sub_inv_def)
  ultimately show ?thesis by simp
qed



subsection \<open>The text form of an authority\<close>

text \<open>A text without white space is read whole; the classes of the patterns hold none.\<close>

lemma extract_token_id: "list_all (\<lambda>c. \<not> is_space c) s \<Longrightarrow> extract_token s = s"
proof -
  assume a: "list_all (\<lambda>c. \<not> is_space c) s"
  then have "dropWhile is_space s = s"
    by (cases s) simp_all
  moreover from a have "takeWhile (\<lambda>c. \<not> is_space c) s = s"
    by (simp add: takeWhile_eq_all_conv list_all_iff)
  ultimately show ?thesis by (simp add: extract_token_def)
qed

lemma class_not_space:
  "host4_char c \<Longrightarrow> \<not> is_space c"
  "host6_char c \<Longrightarrow> \<not> is_space c"
  "is_digit c \<Longrightarrow> \<not> is_space c"
  by (auto simp add: host4_char_def host6_char_def is_digit_def is_space_def)

lemma class_facts:
  "\<not> host4_char CHR '':''" "\<not> host4_char CHR ''[''" "\<not> host6_char CHR '']''"
  "\<not> is_space CHR '':''" "\<not> is_space CHR ''[''" "\<not> is_space CHR '']''"
  "is_digit c \<Longrightarrow> host4_char c"
  by (auto simp add: host4_char_def host6_char_def is_digit_def is_space_def)

lemma match_port_full: "is_port p \<Longrightarrow> match_port (CHR '':'' # p) = p"
  by (simp add: match_port_def is_port_def takeWhile_eq_all_conv [THEN iffD2] list_all_iff)

lemma match_here_ipv4:
  assumes "ipv4_text h" and "is_port p"
  shows "match_here (h @ '':'' @ p) = Some (h, [], p)"
proof -
  from assms(1) have all: "\<And>x. x \<in> set h \<Longrightarrow> host4_char x" and ne: "h \<noteq> []"
    by (simp_all add: ipv4_text_def list_all_iff)
  have t: "takeWhile host4_char (h @ CHR '':'' # p) = h"
    using all by (simp add: takeWhile_append2 class_facts)
  have d: "dropWhile host4_char (h @ CHR '':'' # p) = CHR '':'' # p"
    using all by (simp add: dropWhile_append2 class_facts)
  show ?thesis
    using ne assms(2) by (simp add: match_here_def t d match_port_full)
qed

lemma match_here_ipv6:
  assumes "ipv6_text t" and "is_port p"
  shows "match_here (''['' @ t @ '']'' @ '':'' @ p) = Some ([], t, p)"
proof -
  from assms(1) have all: "\<And>x. x \<in> set t \<Longrightarrow> host6_char x" and ne: "t \<noteq> []"
    by (simp_all add: ipv6_text_def list_all_iff)
  have t: "takeWhile host6_char (t @ CHR '']'' # CHR '':'' # p) = t"
    using all by (simp add: takeWhile_append2 class_facts)
  have d: "dropWhile host6_char (t @ CHR '']'' # CHR '':'' # p) = CHR '']'' # CHR '':'' # p"
    using all by (simp add: dropWhile_append2 class_facts)
  show ?thesis
    using ne assms(2) by (simp add: match_here_def t d match_port_full class_facts)
qed

lemma bracketed_split: "bracketed h \<Longrightarrow> \<exists>t. h = ''['' @ t @ '']'' \<and> ipv6_text t"
proof -
  assume b: "bracketed h"
  then obtain r where h: "h = CHR ''['' # r" and r: "r \<noteq> []" "last r = CHR '']''" "ipv6_text (butlast r)"
    by (auto simp add: bracketed_def split: list.splits)
  from r(1,2) have "r = butlast r @ '']''"
    by (metis append_butlast_last_id)
  with h r(3) show ?thesis by auto
qed

lemma regex_search_here: "match_here s = Some m \<Longrightarrow> regex_search s = Some m"
  by (cases s) (simp_all add: match_here_def)


lemma host_port_form: "host_form h \<Longrightarrow> is_port p \<Longrightarrow> authority_form (h @ '':'' @ p)"
proof -
  assume h: "host_form h" and p: "is_port p"
  have "length h \<in> set [0..<length (h @ '':'' @ p)]" by simp
  moreover have "(h @ '':'' @ p) ! length h = CHR '':''" by simp
  moreover have "take (length h) (h @ '':'' @ p) = h" by simp
  moreover have "drop (Suc (length h)) (h @ '':'' @ p) = p" by simp
  ultimately show ?thesis
    using h p unfolding authority_form_def list_ex_iff by metis
qed

lemma match_port_cases:
  "match_port rest = [] \<or>
   (\<exists>post. rest = '':'' @ match_port rest @ post \<and> is_port (match_port rest))"
proof (cases rest)
  case Nil
  then show ?thesis by (simp add: match_port_def)
next
  case (Cons c r)
  show ?thesis
  proof (cases "c = CHR '':'' \<and> take 10 (takeWhile is_digit r) \<noteq> []")
    case False
    with Cons show ?thesis by (auto simp add: match_port_def)
  next
    case True
    let ?m = "take 10 (takeWhile is_digit r)"
    have m: "match_port rest = ?m" using Cons True by (simp add: match_port_def)
    have "r = ?m @ drop 10 (takeWhile is_digit r) @ dropWhile is_digit r"
      by (metis append.assoc append_take_drop_id takeWhile_dropWhile_id)
    with Cons True have "rest = '':'' @ ?m @ (drop 10 (takeWhile is_digit r) @ dropWhile is_digit r)"
      by simp
    moreover have "set ?m \<subseteq> set (takeWhile is_digit r)" by (rule set_take_subset)
    then have "list_all is_digit ?m"
      by (auto simp add: list_all_iff dest: set_takeWhileD)
    with True have "is_port ?m" by (simp add: is_port_def)
    ultimately show ?thesis unfolding m by blast
  qed
qed

lemma host_then_port:
  assumes "host_form h"
  shows "\<exists>mt post. h @ rest = mt @ post \<and> authority_form mt"
proof -
  from match_port_cases [of rest] show ?thesis
  proof
    assume "match_port rest = []"
    from assms have "authority_form h" by (simp add: authority_form_def)
    then show ?thesis by blast
  next
    assume "\<exists>post. rest = '':'' @ match_port rest @ post \<and> is_port (match_port rest)"
    then obtain post where r: "rest = '':'' @ match_port rest @ post"
      and p: "is_port (match_port rest)" by blast
    from assms p have "authority_form (h @ '':'' @ match_port rest)" by (rule host_port_form)
    moreover from r have "h @ rest = (h @ '':'' @ match_port rest) @ post" by simp
    ultimately show ?thesis by blast
  qed
qed

lemma match_here_sound:
  assumes "match_here s = Some m"
  shows "\<exists>mt post. s = mt @ post \<and> authority_form mt"
proof (cases "takeWhile host4_char s \<noteq> []")
  case True
  have "list_all host4_char (takeWhile host4_char s)"
    by (auto simp add: list_all_iff dest: set_takeWhileD)
  with True have "host_form (takeWhile host4_char s)"
    by (simp add: host_form_def ipv4_text_def)
  from host_then_port [OF this, of "dropWhile host4_char s"] show ?thesis by simp
next
  case False
  with assms obtain r where s: "s = CHR ''['' # r"
    and t: "takeWhile host6_char r \<noteq> []"
    and d: "take 1 (dropWhile host6_char r) = '']''"
    by (auto simp add: match_here_def split: list.splits if_splits)
  from d obtain q where q: "dropWhile host6_char r = CHR '']'' # q"
    by (cases "dropWhile host6_char r") auto
  have "list_all host6_char (takeWhile host6_char r)"
    by (auto simp add: list_all_iff dest: set_takeWhileD)
  with t have "bracketed (''['' @ takeWhile host6_char r @ '']'')"
    by (simp add: bracketed_def ipv6_text_def)
  then have "host_form (''['' @ takeWhile host6_char r @ '']'')"
    by (simp add: host_form_def)
  from host_then_port [OF this, of q] obtain mt post where
    "(''['' @ takeWhile host6_char r @ '']'') @ q = mt @ post" "authority_form mt" by blast
  moreover have "s = (''['' @ takeWhile host6_char r @ '']'') @ q"
    using s q takeWhile_dropWhile_id [of host6_char r] by simp
  ultimately show ?thesis by metis
qed

lemma regex_search_sound:
  "regex_search s = Some m \<Longrightarrow> \<exists>pre mt post. s = pre @ mt @ post \<and> authority_form mt"
proof (induction s)
  case Nil
  then show ?case by simp
next
  case (Cons c cs)
  show ?case
  proof (cases "match_here (c # cs)")
    case (Some m')
    from match_here_sound [OF this] obtain mt post where
      "c # cs = [] @ mt @ post" "authority_form mt" by auto
    then show ?thesis by blast
  next
    case None
    with Cons.prems have "regex_search cs = Some m" by simp
    from Cons.IH [OF this] obtain pre mt post where
      "cs = pre @ mt @ post" "authority_form mt" by blast
    then have "c # cs = (c # pre) @ mt @ post" by simp
    with \<open>authority_form mt\<close> show ?thesis by blast
  qed
qed

lemma lexical_cast_port:
  "is_port p \<Longrightarrow> lexical_cast_uint16 p =
     (if decimal p \<le> 65535 then Some (of_nat (decimal p)) else None)"
  by (simp add: lexical_cast_uint16_def is_port_def)

lemma host_port_no_space:
  assumes "host_form h" and "is_port p"
  shows "extract_token (h @ '':'' @ p) = h @ '':'' @ p"
proof (rule extract_token_id)
  from assms(2) have p: "list_all (\<lambda>c. \<not> is_space c) p"
    by (auto simp add: is_port_def list_all_iff class_not_space)
  from assms(1) have "list_all (\<lambda>c. \<not> is_space c) h"
  proof (unfold host_form_def, elim disjE)
    assume "ipv4_text h"
    then show ?thesis by (auto simp add: ipv4_text_def list_all_iff class_not_space)
  next
    assume "bracketed h"
    from bracketed_split [OF this] obtain t where "h = ''['' @ t @ '']''" "ipv6_text t" by blast
    then show ?thesis
      by (auto simp add: ipv6_text_def list_all_iff class_not_space class_facts)
  qed
  with p show "list_all (\<lambda>c. \<not> is_space c) (h @ '':'' @ p)"
    by (simp add: class_facts)
qed

lemma host_port_search:
  assumes "host_form h" and "is_port p"
  shows "regex_search (h @ '':'' @ p) =
     Some (if ipv4_text h then (h, [], p) else ([], butlast (tl h), p))"
proof (cases "ipv4_text h")
  case True
  from match_here_ipv4 [OF True assms(2)] have "regex_search (h @ '':'' @ p) = Some (h, [], p)"
    by (rule regex_search_here)
  with True show ?thesis by simp
next
  case False
  with assms(1) have "bracketed h" by (simp add: host_form_def)
  from bracketed_split [OF this] obtain t where h: "h = ''['' @ t @ '']''" and t: "ipv6_text t"
    by blast
  from match_here_ipv6 [OF t assms(2)] have "regex_search (''['' @ t @ '']'' @ '':'' @ p) = Some ([], t, p)"
    by (rule regex_search_here)
  with False h show ?thesis by simp
qed

lemma host_form_head: "host_form h \<Longrightarrow> h \<noteq> [] \<and> (host4_char (hd h) \<or> hd h = CHR ''['')"
  by (cases h) (auto simp add: host_form_def ipv4_text_def bracketed_def)

lemma authority_form_head:
  assumes "authority_form m"
  shows "m \<noteq> [] \<and> (host4_char (hd m) \<or> hd m = CHR ''['')"
proof -
  from assms consider "host_form m"
    | i where "i < length m" "host_form (take i m)"
    by (auto simp add: authority_form_def list_ex_iff)
  then show ?thesis
  proof cases
    case 1
    then show ?thesis by (rule host_form_head)
  next
    case 2
    from host_form_head [OF 2(2)] have ne: "take i m \<noteq> []"
      and hd: "host4_char (hd (take i m)) \<or> hd (take i m) = CHR ''[''" by blast+
    from ne have "0 < i" and "m \<noteq> []" by auto
    then have "hd (take i m) = hd m" by (simp add: hd_take)
    with hd \<open>m \<noteq> []\<close> show ?thesis by simp
  qed
qed

lemma no_form_inside:
  assumes "\<forall>c\<in>set t. \<not> host4_char c \<and> c \<noteq> CHR ''[''"
  shows "\<forall>pre m post. t = pre @ m @ post \<longrightarrow> \<not> authority_form m"
proof (intro allI impI notI)
  fix pre m post
  assume t: "t = pre @ m @ post" and "authority_form m"
  from authority_form_head [OF this(2)] have "m \<noteq> []"
    and hd: "host4_char (hd m) \<or> hd m = CHR ''[''" by simp_all
  from \<open>m \<noteq> []\<close> t have "hd m \<in> set t" by simp
  with assms hd show False by blast
qed

text \<open>The library calls and the patterns on the texts of the examples.\<close>

lemma show_decimal_digit: "n < 10 \<Longrightarrow> show_decimal n = [digit_char n]"
  by (subst show_decimal.simps) simp

lemma show_decimal_more:
  "\<not> n < 10 \<Longrightarrow> show_decimal n = show_decimal (n div 10) @ [digit_char (n mod 10)]"
  by (subst show_decimal.simps) simp

lemma show_hex_digit: "n < 16 \<Longrightarrow> show_hex n = [digit_char n]"
  by (subst show_hex.simps) simp

lemma show_hex_more:
  "\<not> n < 16 \<Longrightarrow> show_hex n = show_hex (n div 16) @ [digit_char (n mod 16)]"
  by (subst show_hex.simps) simp

lemma ev_show_port: "show_decimal 8333 = ''8333''"
  by (simp add: show_decimal_digit show_decimal_more digit_char_def)

lemma ev_show_ffff: "show_hex 65535 = ''ffff''"
  by (simp add: show_hex_digit show_hex_more digit_char_def)

lemma ev_ntop4: "inet_ntop4 [1, 2, 3, 4] = ''1.2.3.4''"
  by (simp add: inet_ntop4_def show_decimal_digit digit_char_def)

lemma ev_zero_run:
  "zero_run [0, 0, 0, 0, 0, 65535, 258, 772] = Some (0, 5)"
  by (simp add: zero_run_def longer_run_def)

lemma ev_to_address:
  "address_to_string [0, 0, 0, 0, 0, 0, 0, 0, 0, 0, 255, 255, 1, 2, 3, 4] = ''::ffff:1.2.3.4''"
  by (simp add: address_to_string_def ev_zero_run encapsulated_def ev_ntop4 ev_show_ffff Let_def)



lemma ev_hostname:
  "authority_to_hostname \<lparr>ip_field = [0, 0, 0, 0, 0, 0, 0, 0, 0, 0, 255, 255, 1, 2, 3, 4],
      port_field = pt\<rparr> = ''1.2.3.4''"
  by (simp add: authority_to_hostname_def to_ipv4_hostname_def ev_to_address host4_char_def)

lemma ev_pton4: "inet_pton4 ''1.2.3.4'' = Some [1, 2, 3, 4]"
  by (simp add: inet_pton4_def is_digit_def digit_value_def)

lemma ev_replicate: "replicate 10 (0 :: u8) = [0, 0, 0, 0, 0, 0, 0, 0, 0, 0]"
  by (simp add: numeral_eq_Suc)

lemma ev_from_string:
  "address_from_string ''::ffff:1.2.3.4'' =
     Some [0, 0, 0, 0, 0, 0, 0, 0, 0, 0, 255, 255, 1, 2, 3, 4]"
  by (simp add: address_from_string_def inet_pton6_def ev_pton4 is_xdigit_def
      xdigit_value_def is_digit_def word_bytes_def ev_replicate)

lemma ev_search_plain: "regex_search ''1.2.3.4'' = Some (''1.2.3.4'', [], [])"
  by (simp add: match_here_def match_port_def host4_char_def)

lemma ev_search_port: "regex_search ''1.2.3.4:8333'' = Some (''1.2.3.4'', [], ''8333'')"
  by (simp add: match_here_def match_port_def host4_char_def is_digit_def)

lemma ev_search_junk: "regex_search ''x1.2.3.4:8333'' = Some (''1.2.3.4'', [], ''8333'')"
  by (simp add: match_here_def match_port_def host4_char_def is_digit_def)

lemma ev_port: "lexical_cast_uint16 ''8333'' = Some 8333"
  by (simp add: lexical_cast_uint16_def is_digit_def decimal_def digit_value_def)

lemma parse_found:
  "regex_search (extract_token s) = Some (m2, m3, m5) \<Longrightarrow>
   address_from_string (if m3 = [] then to_ipv6 m2 else m3) = Some a \<Longrightarrow>
   authority_from_string s =
     (case lexical_cast_uint16 m5 of
        None \<Rightarrow> Inl (invalid_option_value (extract_token s))
      | Some p \<Rightarrow> Inr \<lparr>ip_field = a, port_field = p\<rparr>)"
  by (simp add: authority_from_string_def)

lemma ev_tokens:
  "extract_token ''1.2.3.4'' = ''1.2.3.4''"
  "extract_token ''1.2.3.4:8333'' = ''1.2.3.4:8333''"
  "extract_token ''x1.2.3.4:8333'' = ''x1.2.3.4:8333''"
  "extract_token ''seed'' = ''seed''"
  by (simp_all add: extract_token_def is_space_def)

lemma ev_parse_port:
  assumes "extract_token s = s"
    and "regex_search s = Some (''1.2.3.4'', [], ''8333'')"
  shows "authority_from_string s =
     Inr \<lparr>ip_field = [0, 0, 0, 0, 0, 0, 0, 0, 0, 0, 255, 255, 1, 2, 3, 4], port_field = 8333\<rparr>"
proof -
  have "regex_search (extract_token s) = Some (''1.2.3.4'', [], ''8333'')"
    using assms by simp
  moreover have "address_from_string (if ([] :: string) = [] then to_ipv6 ''1.2.3.4'' else []) =
      Some [0, 0, 0, 0, 0, 0, 0, 0, 0, 0, 255, 255, 1, 2, 3, 4]"
    by (simp add: to_ipv6_def ev_from_string)
  ultimately have "authority_from_string s =
     (case lexical_cast_uint16 ''8333'' of
        None \<Rightarrow> Inl (invalid_option_value (extract_token s))
      | Some p \<Rightarrow> Inr \<lparr>ip_field = [0, 0, 0, 0, 0, 0, 0, 0, 0, 0, 255, 255, 1, 2, 3, 4],
                     port_field = p\<rparr>)"
    by (rule parse_found)
  then show ?thesis by (simp add: ev_port)
qed

lemma example_round_trip:
  "authority_from_string ''1.2.3.4:8333'' =
     Inr \<lparr>ip_field = [0, 0, 0, 0, 0, 0, 0, 0, 0, 0, 255, 255, 1, 2, 3, 4], port_field = 8333\<rparr> \<and>
   to_string \<lparr>ip_field = [0, 0, 0, 0, 0, 0, 0, 0, 0, 0, 255, 255, 1, 2, 3, 4],
      port_field = 8333\<rparr> = ''1.2.3.4:8333''"
proof
  show "authority_from_string ''1.2.3.4:8333'' =
     Inr \<lparr>ip_field = [0, 0, 0, 0, 0, 0, 0, 0, 0, 0, 255, 255, 1, 2, 3, 4], port_field = 8333\<rparr>"
    by (rule ev_parse_port) (simp_all only: ev_tokens ev_search_port)
  show "to_string \<lparr>ip_field = [0, 0, 0, 0, 0, 0, 0, 0, 0, 0, 255, 255, 1, 2, 3, 4],
      port_field = 8333\<rparr> = ''1.2.3.4:8333''"
    by (simp add: to_string_def to_authority_def to_hostname_def port_def ev_hostname
        ev_show_port)
qed

text \<open>
  An address whose text holds \<^verbatim>\<open>::ffff:\<close> before a digit without being a mapped IPv4
  address is formatted by the digits that follow, and the text parses to another
  address: the pattern of \<^verbatim>\<open>to_ipv4_hostname\<close> is searched, not anchored.
\<close>

lemma ev_zero_run_inner: "zero_run [1, 0, 0, 0, 0, 65535, 1, 2] = Some (1, 4)"
  by (simp add: zero_run_def longer_run_def)

lemma ev_words_inner:
  "words [0, 1, 0, 0, 0, 0, 0, 0, 0, 0, 255, 255, 0, 1, 0, 2] = [1, 0, 0, 0, 0, 65535, 1, 2]"
  by simp

lemma ev_to_address_inner:
  "address_to_string [0, 1, 0, 0, 0, 0, 0, 0, 0, 0, 255, 255, 0, 1, 0, 2] = ''1::ffff:1:2''"
  unfolding address_to_string_def ev_words_inner Let_def ev_zero_run_inner
  by (simp add: encapsulated_def ev_show_ffff show_hex_digit digit_char_def)

lemma ev_hostname_inner:
  "authority_to_hostname \<lparr>ip_field = [0, 1, 0, 0, 0, 0, 0, 0, 0, 0, 255, 255, 0, 1, 0, 2],
      port_field = pt\<rparr> = ''1''"
  by (simp add: authority_to_hostname_def to_ipv4_hostname_def ev_to_address_inner
      host4_char_def)

lemma ev_replicate_inner: "replicate 12 (0 :: u8) = [0, 0, 0, 0, 0, 0, 0, 0, 0, 0, 0, 0]"
  by (simp add: numeral_eq_Suc)

lemma ev_from_string_inner:
  "address_from_string ''::ffff:1'' =
     Some [0, 0, 0, 0, 0, 0, 0, 0, 0, 0, 0, 0, 255, 255, 0, 1]"
  by (simp add: address_from_string_def inet_pton6_def is_xdigit_def
      xdigit_value_def is_digit_def word_bytes_def ev_replicate_inner)

lemma ev_search_inner: "regex_search ''1:8333'' = Some (''1'', [], ''8333'')"
  by (simp add: match_here_def match_port_def host4_char_def is_digit_def)

lemma embedded_ffff_not_parsed_back:
  "to_string \<lparr>ip_field = [0, 1, 0, 0, 0, 0, 0, 0, 0, 0, 255, 255, 0, 1, 0, 2],
      port_field = 8333\<rparr> = ''1:8333'' \<and>
   authority_from_string ''1:8333'' =
     Inr \<lparr>ip_field = [0, 0, 0, 0, 0, 0, 0, 0, 0, 0, 0, 0, 255, 255, 0, 1], port_field = 8333\<rparr> \<and>
   \<not> authority_eq
     \<lparr>ip_field = [0, 0, 0, 0, 0, 0, 0, 0, 0, 0, 0, 0, 255, 255, 0, 1], port_field = 8333\<rparr>
     \<lparr>ip_field = [0, 1, 0, 0, 0, 0, 0, 0, 0, 0, 255, 255, 0, 1, 0, 2], port_field = 8333\<rparr>"
proof (intro conjI)
  show "\<not> authority_eq
     \<lparr>ip_field = [0, 0, 0, 0, 0, 0, 0, 0, 0, 0, 0, 0, 255, 255, 0, 1], port_field = 8333\<rparr>
     \<lparr>ip_field = [0, 1, 0, 0, 0, 0, 0, 0, 0, 0, 255, 255, 0, 1, 0, 2], port_field = 8333\<rparr>"
    by (simp add: authority_eq_def ip_def)
  show "to_string \<lparr>ip_field = [0, 1, 0, 0, 0, 0, 0, 0, 0, 0, 255, 255, 0, 1, 0, 2],
      port_field = 8333\<rparr> = ''1:8333''"
    by (simp add: to_string_def to_authority_def to_hostname_def port_def ev_hostname_inner
        ev_show_port)
  have t: "extract_token ''1:8333'' = ''1:8333''"
    by (simp add: extract_token_def is_space_def)
  have "regex_search (extract_token ''1:8333'') = Some (''1'', [], ''8333'')"
    by (simp only: t ev_search_inner)
  moreover have "address_from_string (if ([] :: string) = [] then to_ipv6 ''1'' else []) =
      Some [0, 0, 0, 0, 0, 0, 0, 0, 0, 0, 0, 0, 255, 255, 0, 1]"
    by (simp add: to_ipv6_def ev_from_string_inner)
  ultimately have "authority_from_string ''1:8333'' =
     (case lexical_cast_uint16 ''8333'' of
        None \<Rightarrow> Inl (invalid_option_value (extract_token ''1:8333''))
      | Some p \<Rightarrow> Inr \<lparr>ip_field = [0, 0, 0, 0, 0, 0, 0, 0, 0, 0, 0, 0, 255, 255, 0, 1],
                     port_field = p\<rparr>)"
    by (rule parse_found)
  then show "authority_from_string ''1:8333'' =
     Inr \<lparr>ip_field = [0, 0, 0, 0, 0, 0, 0, 0, 0, 0, 0, 0, 255, 255, 0, 1], port_field = 8333\<rparr>"
    by (simp add: ev_port)
qed

lemma ev_parse_plain:
  "authority_from_string ''1.2.3.4'' = Inl (invalid_option_value ''1.2.3.4'')"
proof -
  have "regex_search (extract_token ''1.2.3.4'') = Some (''1.2.3.4'', [], [])"
    by (simp only: ev_tokens ev_search_plain)
  moreover have "address_from_string (if ([] :: string) = [] then to_ipv6 ''1.2.3.4'' else []) =
      Some [0, 0, 0, 0, 0, 0, 0, 0, 0, 0, 255, 255, 1, 2, 3, 4]"
    by (simp add: to_ipv6_def ev_from_string)
  ultimately have "authority_from_string ''1.2.3.4'' =
     (case lexical_cast_uint16 [] of
        None \<Rightarrow> Inl (invalid_option_value (extract_token ''1.2.3.4''))
      | Some p \<Rightarrow> Inr \<lparr>ip_field = [0, 0, 0, 0, 0, 0, 0, 0, 0, 0, 255, 255, 1, 2, 3, 4],
                     port_field = p\<rparr>)"
    by (rule parse_found)
  then show ?thesis
    by (simp add: lexical_cast_uint16_def ev_tokens)
qed

text \<open>
  C3. Formatting an authority and parsing the text gives the authority back; the text
  \<open>1.2.3.4:8333\<close> parses to \<open>::ffff:1.2.3.4\<close> with port 8333 and is formatted back to
  itself (\<open>example_round_trip\<close>). At port 0 the code does not do this: the authority
  \<open>::ffff:1.2.3.4\<close> with port 0 is formatted as \<open>1.2.3.4\<close>, and parsing that text
  throws \<^verbatim>\<open>invalid_option_value\<close>, because the cast of the empty port group fails.
\<close>

theorem port_zero_not_parsed_back:
  "to_string \<lparr>ip_field = [0, 0, 0, 0, 0, 0, 0, 0, 0, 0, 255, 255, 1, 2, 3, 4],
      port_field = 0\<rparr> = ''1.2.3.4'' \<and>
   authority_from_string ''1.2.3.4'' = Inl (invalid_option_value ''1.2.3.4'')"
proof
  show "to_string \<lparr>ip_field = [0, 0, 0, 0, 0, 0, 0, 0, 0, 0, 255, 255, 1, 2, 3, 4],
      port_field = 0\<rparr> = ''1.2.3.4''"
    by (simp add: to_string_def to_authority_def to_hostname_def port_def ev_hostname)
  show "authority_from_string ''1.2.3.4'' = Inl (invalid_option_value ''1.2.3.4'')"
    by (rule ev_parse_plain)
qed

text \<open>
  What the parser does where the pattern alone decides. A string whose first token
  holds no text of the forms \<^verbatim>\<open>host\<close>, \<^verbatim>\<open>host:port\<close> or \<^verbatim>\<open>[v6]:port\<close> is
  refused with \<^verbatim>\<open>invalid_option_value\<close>. A string that is a host, a colon and one to
  ten digits is parsed when \<^verbatim>\<open>from_string\<close> accepts the address text of the host (the
  run of digits and dots behind the prefix \<^verbatim>\<open>::ffff:\<close>, or the text between the
  brackets) and the number is at most 65535, and is refused otherwise.
\<close>

lemma parse_of_forms:
  "((\<forall>pre m post. extract_token s = pre @ m @ post \<longrightarrow> \<not> authority_form m) \<longrightarrow>
      authority_from_string s = Inl (invalid_option_value (extract_token s))) \<and>
   (host_form h \<and> is_port p \<longrightarrow>
      authority_from_string (h @ '':'' @ p) =
        (case address_from_string (host_address h) of
           None \<Rightarrow> Inl (invalid_option_value (h @ '':'' @ p))
         | Some a \<Rightarrow>
             if decimal p \<le> 65535
             then Inr \<lparr>ip_field = a, port_field = of_nat (decimal p)\<rparr>
             else Inl (invalid_option_value (h @ '':'' @ p))))"
proof (intro conjI impI)
  assume none: "\<forall>pre m post. extract_token s = pre @ m @ post \<longrightarrow> \<not> authority_form m"
  have "regex_search (extract_token s) = None"
  proof (cases "regex_search (extract_token s)")
    case None
    then show ?thesis .
  next
    case (Some m)
    from regex_search_sound [OF this] none show ?thesis by blast
  qed
  then show "authority_from_string s = Inl (invalid_option_value (extract_token s))"
    by (simp add: authority_from_string_def)
next
  assume a: "host_form h \<and> is_port p"
  then have h: "host_form h" and p: "is_port p" by simp_all
  have e: "extract_token (h @ CHR '':'' # p) = h @ CHR '':'' # p"
    using host_port_no_space [OF h p] by simp
  have r: "regex_search (h @ CHR '':'' # p) =
      Some (if ipv4_text h then (h, [], p) else ([], butlast (tl h), p))"
    using host_port_search [OF h p] by simp
  have t: "ipv6_text (butlast (tl h))" if "\<not> ipv4_text h"
  proof -
    from that h have "bracketed h" by (simp add: host_form_def)
    from bracketed_split [OF this] show ?thesis by auto
  qed
  show "authority_from_string (h @ '':'' @ p) =
        (case address_from_string (host_address h) of
           None \<Rightarrow> Inl (invalid_option_value (h @ '':'' @ p))
         | Some a \<Rightarrow>
             if decimal p \<le> 65535
             then Inr \<lparr>ip_field = a, port_field = of_nat (decimal p)\<rparr>
             else Inl (invalid_option_value (h @ '':'' @ p)))"
  proof (cases "ipv4_text h")
    case True
    then show ?thesis
      by (simp add: authority_from_string_def e r Let_def host_address_def
          lexical_cast_port [OF p] split: option.splits)
  next
    case False
    from t [OF False] have "butlast (tl h) \<noteq> []" by (auto simp add: ipv6_text_def)
    with False show ?thesis
      by (simp add: authority_from_string_def e r Let_def host_address_def
          lexical_cast_port [OF p] split: option.splits)
  qed
qed

lemma parse_of_forms_examples:
  "authority_from_string ''seed'' = Inl (invalid_option_value ''seed'') \<and>
   host_form ''1.2.3.4'' \<and> is_port ''8333'' \<and> is_port ''65536'' \<and>
   authority_from_string ''1.2.3.4:8333'' =
     Inr \<lparr>ip_field = [0, 0, 0, 0, 0, 0, 0, 0, 0, 0, 255, 255, 1, 2, 3, 4], port_field = 8333\<rparr> \<and>
   authority_from_string ''1.2.3.4:65536'' = Inl (invalid_option_value ''1.2.3.4:65536'')"
proof -
  have tok: "extract_token ''seed'' = ''seed''"
    by (simp add: ev_tokens)
  have none: "\<forall>pre m post. extract_token ''seed'' = pre @ m @ post \<longrightarrow> \<not> authority_form m"
    unfolding tok by (rule no_form_inside) (simp add: host4_char_def)
  have h: "host_form ''1.2.3.4''"
    by (simp add: host_form_def ipv4_text_def host4_char_def)
  have p: "is_port ''8333''" and q: "is_port ''65536''"
    by (simp_all add: is_port_def is_digit_def)
  have a: "address_from_string (host_address ''1.2.3.4'') =
      Some [0, 0, 0, 0, 0, 0, 0, 0, 0, 0, 255, 255, 1, 2, 3, 4]"
    by (simp add: host_address_def ipv4_text_def host4_char_def to_ipv6_def ev_from_string)
  have d: "decimal ''8333'' = 8333" "decimal ''65536'' = 65536"
    by (simp_all add: decimal_def digit_value_def)
  show ?thesis
    using none h p q
      parse_of_forms [of "''seed''" "''1.2.3.4''" "''8333''"]
      parse_of_forms [of "''seed''" "''1.2.3.4''" "''65536''"]
    by (simp add: tok a d)
qed

text \<open>
  C4. Parsing succeeds for exactly the strings of the forms \<^verbatim>\<open>host\<close>,
  \<^verbatim>\<open>host:port\<close> and \<^verbatim>\<open>[v6]:port\<close> with a port up to 65535, a missing port being
  port 0, and fails with \<^verbatim>\<open>invalid_option_value\<close> for every other string. The code
  does not do this: the pattern is searched in the token and not matched against the
  whole of it, so \<open>x1.2.3.4:8333\<close>, which has none of the forms, is parsed as
  \<open>::ffff:1.2.3.4\<close> with port 8333; and \<open>1.2.3.4\<close>, which has the form \<^verbatim>\<open>host\<close>, is
  refused, because the cast of the empty port group fails.
\<close>

theorem authority_parse_not_exact:
  "\<not> authority_form ''x1.2.3.4:8333'' \<and>
   authority_from_string ''x1.2.3.4:8333'' =
     Inr \<lparr>ip_field = [0, 0, 0, 0, 0, 0, 0, 0, 0, 0, 255, 255, 1, 2, 3, 4], port_field = 8333\<rparr> \<and>
   authority_form ''1.2.3.4'' \<and>
   authority_from_string ''1.2.3.4'' = Inl (invalid_option_value ''1.2.3.4'')"
proof (intro conjI)
  show "\<not> authority_form ''x1.2.3.4:8333''"
    using authority_form_head [of "''x1.2.3.4:8333''"] by (auto simp add: host4_char_def)
  show "authority_from_string ''x1.2.3.4:8333'' =
     Inr \<lparr>ip_field = [0, 0, 0, 0, 0, 0, 0, 0, 0, 0, 255, 255, 1, 2, 3, 4], port_field = 8333\<rparr>"
    by (rule ev_parse_port) (simp_all only: ev_tokens ev_search_junk)
  show "authority_form ''1.2.3.4''"
    by (simp add: authority_form_def host_form_def ipv4_text_def host4_char_def)
  show "authority_from_string ''1.2.3.4'' = Inl (invalid_option_value ''1.2.3.4'')"
    by (rule ev_parse_plain)
qed

subsection \<open>The wire form of an authority\<close>

text \<open>
  C9. For every authority, \<^verbatim>\<open>to_network_address\<close> returns a network address whose
  timestamp is 0 and whose services are 0, whatever the address and the port are; the
  sixteen address bytes and the port are carried over unchanged.
\<close>

theorem to_network_address_fields:
  "addr_timestamp (to_network_address a) = 0 \<and>
   addr_services (to_network_address a) = 0 \<and>
   addr_ip (to_network_address a) = ip_field a \<and>
   addr_port (to_network_address a) = port_field a"
  by (simp add: to_network_address_def ip_def port_def)

end
